theory Spec2Isabelle
  imports Main "HOL-Library.Log_Nat"
begin

section \<open>Python values shared by the three applications\<close>

text \<open>
  Strings are lists of code points; the messages of the applications only use Latin-1, so a
  \<^typ>\<open>char\<close> is one code point and \<open>s[:8]\<close> is \<^term>\<open>take 8 s\<close>. The accented letters
  of the Spanish messages are written by code point.
\<close>

definition a_acute :: char where "a_acute = CHR 0xE1"
definition i_acute :: char where "i_acute = CHR 0xED"
definition o_acute :: char where "o_acute = CHR 0xF3"

text \<open>\<open>str(n)\<close> for a Python int, as the f-strings of the source format status codes.\<close>

fun str_nat :: "nat \<Rightarrow> string" where
  "str_nat n =
     (if n < 10 then [''0123456789'' ! n]
      else str_nat (n div 10) @ [''0123456789'' ! (n mod 10)])"

declare str_nat.simps [simp del]

definition str_int :: "int \<Rightarrow> string" where
  "str_int i = (if i < 0 then CHR ''-'' # str_nat (nat (- i)) else str_nat (nat i))"

text \<open>
  An exception that leaves a \<open>try\<close> block, with \<open>str(e)\<close>. The handlers of the source
  distinguish \<open>requests.exceptions.RequestException\<close> from every other \<open>Exception\<close>.
\<close>

datatype exn = RequestException string | OtherException string

text \<open>A decoded JSON document (\<open>response.json()\<close>); \<open>JNull\<close> is Python's \<open>None\<close>.\<close>

datatype json =
    JNull
  | JBool bool
  | JInt int
  | JFloat rat
  | JStr string
  | JArr "json list"
  | JObj "(string \<times> json) list"

text \<open>Python truthiness (\<open>if x:\<close>) of a decoded value.\<close>

fun truthy :: "json \<Rightarrow> bool" where
  "truthy JNull = False"
| "truthy (JBool b) = b"
| "truthy (JInt i) = (i \<noteq> 0)"
| "truthy (JFloat q) = (q \<noteq> 0)"
| "truthy (JStr s) = (s \<noteq> [])"
| "truthy (JArr xs) = (xs \<noteq> [])"
| "truthy (JObj kvs) = (kvs \<noteq> [])"

text \<open>
  \<open>d.get(key, default)\<close>: only a dict has the method, every other value raises
  \<open>AttributeError\<close>.
\<close>

definition quoted :: "string \<Rightarrow> string" where
  "quoted s = CHR 0x27 # s @ [CHR 0x27]"

fun type_name :: "json \<Rightarrow> string" where
  "type_name JNull = ''NoneType''"
| "type_name (JBool b) = ''bool''"
| "type_name (JInt i) = ''int''"
| "type_name (JFloat q) = ''float''"
| "type_name (JStr s) = ''str''"
| "type_name (JArr xs) = ''list''"
| "type_name (JObj kvs) = ''dict''"

definition attribute_error :: "json \<Rightarrow> exn" where
  "attribute_error v =
     OtherException (quoted (type_name v) @ '' object has no attribute '' @ quoted ''get'')"

fun py_get :: "json \<Rightarrow> string \<Rightarrow> json \<Rightarrow> exn + json" where
  "py_get (JObj kvs) k d = Inr (case map_of kvs k of None \<Rightarrow> d | Some v \<Rightarrow> v)"
| "py_get v k d = Inl (attribute_error v)"

text \<open>What the \<open>requests\<close> library hands back for one completed HTTP exchange.\<close>

record response =
  status_code :: int
  body_text :: string
  content :: string
  json_body :: "exn + json"

section \<open>The cancellation flag\<close>

text \<open>
  Every worker object carries the flag \<open>is_running\<close> (\<open>_is_running\<close> in the video
  worker): \<open>__init__\<close> sets it, \<open>stop()\<close> clears it from the interface thread, and
  \<open>run\<close> reads it at its checkpoints.
\<close>

record cancellable =
  is_running :: bool

definition stop :: "'a cancellable_scheme \<Rightarrow> 'a cancellable_scheme" where
  "stop w = w\<lparr>is_running := False\<rparr>"

text \<open>
  \<open>stop()\<close> runs on another thread. A schedule \<open>Some k\<close> says that it is called just
  before the \<open>k\<close>-th read of the flag by \<open>run\<close> (counting from 0); \<open>None\<close> that it is
  not called while \<open>run\<close> executes. \<open>observe\<close> is the value that read number \<open>i\<close> sees.
\<close>

record schedule =
  stop_before :: "nat option"

definition observe :: "'a cancellable_scheme \<Rightarrow> nat option \<Rightarrow> nat \<Rightarrow> bool" where
  "observe w sched i = (is_running w \<and> (case sched of None \<Rightarrow> True | Some k \<Rightarrow> i < k))"

section \<open>Audio: the simple request worker\<close>

text \<open>The three arguments of \<open>finished = Signal(object, bool, str)\<close> and the effects of a run.\<close>

datatype payload = PNone | PJson json | PResponse response

datatype 'p action =
    HttpRequest string string
  | MakeDirs
  | OpenFile string
  | WriteChunk string
  | EmitProgress int
  | EmitFinished 'p bool string

record api_task = cancellable +
  api_key :: string

record ApiWorker = api_task +
  endpoint :: string
  http_method :: string
  data :: "json option"

definition ApiWorker_init :: "string \<Rightarrow> string \<Rightarrow> string \<Rightarrow> json option \<Rightarrow> ApiWorker" where
  "ApiWorker_init k e m d =
     \<lparr>is_running = True, api_key = k, endpoint = e, http_method = m, data = d\<rparr>"

record api_env = schedule +
  http_result :: "exn + response"

definition cancelled_before_start :: string where
  "cancelled_before_start = ''Operaci'' @ [o_acute] @ ''n cancelada antes de iniciar.''"

definition cancelled_during_request :: string where
  "cancelled_during_request =
     ''Operaci'' @ [o_acute] @ ''n cancelada durante la ejecuci'' @ [o_acute] @ ''n.''"

definition unbound_response :: exn where
  "unbound_response =
     OtherException (''cannot access local variable '' @ quoted ''response'' @
       '' where it is not associated with a value'')"

text \<open>
  The \<open>if method == "GET" ... elif method == "POST"\<close> of \<open>run\<close>: the request that is
  sent and what comes back; with any other method nothing is sent and the name
  \<open>response\<close> stays unbound (\<open>None\<close> here).
\<close>

definition ApiWorker_request ::
  "ApiWorker \<Rightarrow> api_env \<Rightarrow> payload action list \<times> (exn + response option)" where
  "ApiWorker_request w env =
     (if http_method w = ''GET'' then ([HttpRequest ''GET'' (endpoint w)], map_sum id Some (http_result env))
      else if http_method w = ''POST'' then ([HttpRequest ''POST'' (endpoint w)], map_sum id Some (http_result env))
      else ([], Inr None))"

text \<open>The \<open>if response.status_code == 200 ... else\<close> of \<open>run\<close>.\<close>

definition ApiWorker_deliver :: "ApiWorker \<Rightarrow> response \<Rightarrow> payload action list \<times> exn option" where
  "ApiWorker_deliver w r =
     (if status_code r = 200 then
        (if http_method w \<noteq> ''POST'' \<or> content r \<noteq> [] then
           (case json_body r of
              Inl e \<Rightarrow> ([], Some e)
            | Inr j \<Rightarrow> ([EmitFinished (PJson j) True ''''], None))
         else ([EmitFinished (PResponse r) True ''''], None))
      else ([EmitFinished PNone False
               (''Error: '' @ str_int (status_code r) @ '' - '' @ body_text r)], None))"

text \<open>The \<open>try\<close> block: the effects performed and the exception that left it, if any.\<close>

definition ApiWorker_try :: "ApiWorker \<Rightarrow> api_env \<Rightarrow> payload action list \<times> exn option" where
  "ApiWorker_try w env =
     (case ApiWorker_request w env of
        (acts, Inl e) \<Rightarrow> (acts, Some e)
      | (acts, Inr ro) \<Rightarrow>
          if \<not> observe w (stop_before env) 1
          then (acts @ [EmitFinished PNone False cancelled_during_request], None)
          else (case ro of
                  None \<Rightarrow> (acts, Some unbound_response)
                | Some r \<Rightarrow> (case ApiWorker_deliver w r of (a2, x) \<Rightarrow> (acts @ a2, x))))"

text \<open>The two \<open>except\<close> clauses.\<close>

fun ApiWorker_except :: "exn option \<Rightarrow> payload action list" where
  "ApiWorker_except None = []"
| "ApiWorker_except (Some (RequestException m)) = [EmitFinished PNone False (''Error de red: '' @ m)]"
| "ApiWorker_except (Some (OtherException m)) = [EmitFinished PNone False m]"

text \<open>
  \<open>ApiWorker.run\<close>: the effects in order and the worker afterwards. The early return is
  outside the \<open>try\<close>; there the flag was read as false. Everywhere else \<open>finally\<close>
  clears it.
\<close>

definition ApiWorker_run :: "ApiWorker \<Rightarrow> api_env \<Rightarrow> payload action list \<times> ApiWorker" where
  "ApiWorker_run w env =
     (if \<not> observe w (stop_before env) 0
      then ([EmitFinished PNone False cancelled_before_start], w\<lparr>is_running := False\<rparr>)
      else (case ApiWorker_try w env of
              (acts, x) \<Rightarrow> (acts @ ApiWorker_except x, w\<lparr>is_running := False\<rparr>)))"

text \<open>Reading a trace: the terminal events, the successes, the requests sent.\<close>

fun is_finished :: "'p action \<Rightarrow> bool" where
  "is_finished (EmitFinished p ok m) = True"
| "is_finished _ = False"

fun is_success :: "'p action \<Rightarrow> bool" where
  "is_success (EmitFinished p ok m) = ok"
| "is_success _ = False"

fun is_http :: "'p action \<Rightarrow> bool" where
  "is_http (HttpRequest m u) = True"
| "is_http _ = False"

fun is_write :: "'p action \<Rightarrow> bool" where
  "is_write (WriteChunk c) = True"
| "is_write (OpenFile p) = True"
| "is_write MakeDirs = True"
| "is_write _ = False"

text \<open>
  A trace delivers a single outcome when its last effect is the \<open>finished\<close> signal and
  no earlier effect is.
\<close>

definition no_finished :: "'p action list \<Rightarrow> bool" where
  "no_finished acts = list_all (\<lambda>a. \<not> is_finished a) acts"

definition single_outcome :: "'p action list \<Rightarrow> bool" where
  "single_outcome acts = (acts \<noteq> [] \<and> is_finished (last acts) \<and> no_finished (butlast acts))"

section \<open>Python's float arithmetic\<close>

text \<open>
  \<open>int((total_size / expected_size) * 100)\<close> is computed in binary64. \<open>fl_round\<close> rounds
  a rational to the nearest binary64 value, ties to even: 53 significant bits above
  \<open>2 powi (- 1022)\<close>, the fixed spacing \<open>2 powi (- 1074)\<close> below it. The exponent is
  not bounded above here; the operations below test for overflow themselves.
\<close>

definition round_half_even :: "rat \<Rightarrow> int" where
  "round_half_even x =
     (let f = \<lfloor>x\<rfloor>; d = x - of_int f
      in if d < 1 / 2 then f else if 1 / 2 < d then f + 1 else if even f then f else f + 1)"

text \<open>\<open>flog2 x\<close> is the exponent \<open>e\<close> with \<open>2 powi e \<le> x < 2 powi (e + 1)\<close>, for \<open>0 < x\<close>.\<close>

definition flog2 :: "rat \<Rightarrow> int" where
  "flog2 x =
     (case quotient_of x of (a, b) \<Rightarrow>
        let k = bitlen a - bitlen b in if 2 powi k \<le> x then k else k - 1)"

text \<open>The exponent of the binade of \<open>x\<close>, held at the smallest normal exponent.\<close>

definition fl_exp :: "rat \<Rightarrow> int" where
  "fl_exp x = max (flog2 \<bar>x\<bar>) (- 1022)"

definition fl_round :: "rat \<Rightarrow> rat" where
  "fl_round x =
     (if x = 0 then 0
      else let u = 2 powi (fl_exp x - 52)
           in of_int (round_half_even (x / u)) * u)"

datatype pyfloat = Finite rat | PosInf | NegInf

text \<open>
  \<open>a / b\<close> on two ints is the correctly rounded quotient; it raises
  \<open>ZeroDivisionError\<close>, and \<open>OverflowError\<close> when the quotient is too large for a float.
\<close>

definition int_truediv :: "int \<Rightarrow> int \<Rightarrow> exn + rat" where
  "int_truediv a b =
     (if b = 0 then Inl (OtherException ''division by zero'')
      else let q = fl_round (of_int a / of_int b)
           in if 2 ^ 1024 \<le> \<bar>q\<bar>
              then Inl (OtherException ''integer division result too large for a float'')
              else Inr q)"

text \<open>\<open>x * y\<close> on floats overflows to an infinity.\<close>

definition float_mul :: "rat \<Rightarrow> rat \<Rightarrow> pyfloat" where
  "float_mul x y =
     (let p = fl_round (x * y)
      in if 2 ^ 1024 \<le> p then PosInf else if p \<le> - (2 ^ 1024) then NegInf else Finite p)"

text \<open>\<open>int(x)\<close> truncates towards zero and raises \<open>OverflowError\<close> on an infinity.\<close>

fun int_of_float :: "pyfloat \<Rightarrow> exn + int" where
  "int_of_float (Finite p) = Inr (if 0 \<le> p then \<lfloor>p\<rfloor> else \<lceil>p\<rceil>)"
| "int_of_float PosInf = Inl (OtherException ''cannot convert float infinity to integer'')"
| "int_of_float NegInf = Inl (OtherException ''cannot convert float infinity to integer'')"

text \<open>\<open>int((total_size / expected_size) * 100)\<close>.\<close>

definition progress_percent :: "int \<Rightarrow> int \<Rightarrow> exn + int" where
  "progress_percent total_size expected_size =
     (case int_truediv total_size expected_size of
        Inl e \<Rightarrow> Inl e
      | Inr q \<Rightarrow> int_of_float (float_mul q 100))"

section \<open>Audio: the streaming download worker\<close>

record AudioGenerator = api_task +
  voice_id :: string
  tts_text :: string
  model_id :: string
  stability :: rat
  clarity :: rat

definition AudioGenerator_init ::
  "string \<Rightarrow> string \<Rightarrow> string \<Rightarrow> string \<Rightarrow> rat \<Rightarrow> rat \<Rightarrow> AudioGenerator" where
  "AudioGenerator_init k v t m s c =
     \<lparr>is_running = True, api_key = k, voice_id = v, tts_text = t, model_id = m,
      stability = s, clarity = c\<rparr>"

text \<open>
  \<open>response.headers.get('content-length')\<close> followed by
  \<open>int(content_length) if content_length else None\<close>: the header is absent or empty,
  or \<open>int\<close> raises \<open>ValueError\<close> on it, or it parses to an int.
\<close>

datatype content_length = NoLength | BadLength string | Length int

text \<open>
  A streamed response: \<open>iter_content\<close> yields \<open>chunks\<close> and then either ends or raises
  \<open>stream_error\<close> (an exception raised inside the loop after these chunks were handled).
\<close>

record stream_response = response +
  content_length :: content_length
  chunks :: "string list"
  stream_error :: "exn option"

text \<open>
  The surroundings of one run: the schedule of \<open>stop()\<close>, what \<open>requests.post\<close> does,
  whether the directory is there, whether \<open>os.makedirs\<close> or \<open>open\<close> raises
  (\<open>OSError\<close>, with its message), whether \<open>f.write\<close> raises on chunk number \<open>i\<close>,
  whether closing the file at the exit of the \<open>with\<close> block raises, the file name drawn
  with \<open>os.urandom\<close>, and the answer of \<open>os.path.exists(temp_file)\<close>.
\<close>

record audio_env = schedule +
  post_result :: "exn + stream_response"
  temp_dir_exists :: bool
  makedirs_error :: "string option"
  open_error :: "string option"
  write_error :: "nat \<Rightarrow> string option"
  close_error :: "string option"
  temp_file :: string
  path_exists :: bool

definition stream_url :: "AudioGenerator \<Rightarrow> string" where
  "stream_url w = ''https://api.elevenlabs.io/v1/text-to-speech/'' @ voice_id w @ ''/stream''"

definition audio_cancelled_before_start :: string where
  "audio_cancelled_before_start =
     ''Generaci'' @ [o_acute] @ ''n de audio cancelada antes de iniciar.''"

definition audio_cancelled_during_request :: string where
  "audio_cancelled_during_request =
     ''Generaci'' @ [o_acute] @ ''n de audio cancelada durante la petici'' @ [o_acute] @ ''n.''"

definition audio_cancelled_during_download :: string where
  "audio_cancelled_during_download =
     ''Generaci'' @ [o_acute] @ ''n de audio cancelada durante la descarga.''"

definition audio_empty_file :: string where
  "audio_empty_file =
     ''Error: Archivo de audio generado est'' @ [a_acute] @ '' vac'' @ [i_acute] @ ''o.''"

text \<open>How the \<open>for\<close> loop over the chunks ends.\<close>

datatype loop_exit = StreamEnd nat | Returned | Raised exn

text \<open>\<open>temp_file if os.path.exists(temp_file) else ""\<close>.\<close>

definition existing_file :: "audio_env \<Rightarrow> string" where
  "existing_file env = (if path_exists env then temp_file env else '''')"

text \<open>
  The progress value after a chunk: the real percentage when \<open>expected_size\<close> is
  truthy, the cyclic estimate \<open>(i * 5) % 100\<close> otherwise.
\<close>

definition chunk_progress :: "int option \<Rightarrow> nat \<Rightarrow> nat \<Rightarrow> exn + int" where
  "chunk_progress expected_size i total_size =
     (case expected_size of
        None \<Rightarrow> Inr ((int i * 5) mod 100)
      | Some l \<Rightarrow> if l \<noteq> 0 then progress_percent (int total_size) l
                  else Inr ((int i * 5) mod 100))"

text \<open>
  \<open>for i, chunk in enumerate(response.iter_content(...))\<close>, from index \<open>i\<close> with
  \<open>total_size\<close> bytes written so far. The flag is read once per chunk; it is read
  number \<open>2 + i\<close> of the run.
\<close>

fun download ::
  "AudioGenerator \<Rightarrow> audio_env \<Rightarrow> int option \<Rightarrow> exn option \<Rightarrow> nat \<Rightarrow> nat \<Rightarrow> string list \<Rightarrow>
   string action list \<times> loop_exit" where
  "download w env expected_size err i total_size [] =
     (case err of None \<Rightarrow> ([], StreamEnd total_size) | Some e \<Rightarrow> ([], Raised e))"
| "download w env expected_size err i total_size (chunk # rest) =
     (if \<not> observe w (stop_before env) (2 + i)
      then ([EmitFinished (existing_file env) False audio_cancelled_during_download], Returned)
      else if chunk = [] then download w env expected_size err (Suc i) total_size rest
      else (case write_error env i of
              Some m \<Rightarrow> ([], Raised (OtherException m))
            | None \<Rightarrow>
                (case chunk_progress expected_size i (total_size + length chunk) of
                   Inl e \<Rightarrow> ([WriteChunk chunk], Raised e)
                 | Inr p \<Rightarrow>
                     (case download w env expected_size err (Suc i) (total_size + length chunk)
                             rest of
                        (acts, ex) \<Rightarrow> (WriteChunk chunk # EmitProgress p # acts, ex)))))"

definition expected_size :: "stream_response \<Rightarrow> int option" where
  "expected_size r = (case content_length r of Length l \<Rightarrow> Some l | _ \<Rightarrow> None)"

text \<open>
  The block \<open>with open(temp_file, "wb") as f\<close>: the header is parsed, the chunks are
  handled, and the file is closed when the block is left, whether by its end, by the
  \<open>return\<close> of the cancel branch or by an exception. A close that raises replaces
  whatever left the block.
\<close>

definition AudioGenerator_with_open ::
  "AudioGenerator \<Rightarrow> audio_env \<Rightarrow> stream_response \<Rightarrow> string action list \<times> loop_exit" where
  "AudioGenerator_with_open w env r =
     (case (case content_length r of
              BadLength m \<Rightarrow> ([], Raised (OtherException m))
            | _ \<Rightarrow> download w env (expected_size r) (stream_error r) 0 0 (chunks r)) of
        (acts, ex) \<Rightarrow>
          (case close_error env of
             None \<Rightarrow> (acts, ex)
           | Some m \<Rightarrow> (acts, Raised (OtherException m))))"

text \<open>
  The block and what follows it, for a response with status 200: the effects and the
  exception leaving the \<open>try\<close> block, if any.
\<close>

definition AudioGenerator_save ::
  "AudioGenerator \<Rightarrow> audio_env \<Rightarrow> stream_response \<Rightarrow> string action list \<times> exn option" where
  "AudioGenerator_save w env r =
     (case AudioGenerator_with_open w env r of
        (acts, Raised e) \<Rightarrow> (acts, Some e)
      | (acts, Returned) \<Rightarrow> (acts, None)
      | (acts, StreamEnd total_size) \<Rightarrow>
          if total_size = 0
          then (acts @ [EmitFinished (temp_file env) False audio_empty_file], None)
          else (acts @ [EmitProgress 100, EmitFinished (temp_file env) True ''''], None))"

text \<open>
  Creating the directory when it is missing, drawing the file name and opening the file:
  the effects, the exception raised, and the value of the variable \<open>temp_file\<close>
  afterwards (empty until the name is drawn).
\<close>

definition AudioGenerator_open :: "audio_env \<Rightarrow> string action list \<times> exn option \<times> string" where
  "AudioGenerator_open env =
     (case (if temp_dir_exists env then None else makedirs_error env) of
        Some m \<Rightarrow> ([], Some (OtherException m), '''')
      | None \<Rightarrow>
          (case open_error env of
             Some m \<Rightarrow>
               (if temp_dir_exists env then [] else [MakeDirs], Some (OtherException m),
                temp_file env)
           | None \<Rightarrow>
               ((if temp_dir_exists env then [] else [MakeDirs]) @ [OpenFile (temp_file env)],
                None, temp_file env)))"

text \<open>
  The \<open>try\<close> block: the effects, the exception that left it, and the value of the
  variable \<open>temp_file\<close> at that point.
\<close>

definition AudioGenerator_try ::
  "AudioGenerator \<Rightarrow> audio_env \<Rightarrow> string action list \<times> exn option \<times> string" where
  "AudioGenerator_try w env =
     (case post_result env of
        Inl e \<Rightarrow> ([HttpRequest ''POST'' (stream_url w)], Some e, '''')
      | Inr r \<Rightarrow>
          if \<not> observe w (stop_before env) 1
          then ([HttpRequest ''POST'' (stream_url w),
                 EmitFinished '''' False audio_cancelled_during_request], None, '''')
          else if status_code r = 200 then
            (case AudioGenerator_open env of
               (a1, Some e, tf) \<Rightarrow> (HttpRequest ''POST'' (stream_url w) # a1, Some e, tf)
             | (a1, None, tf) \<Rightarrow>
                 (case AudioGenerator_save w env r of
                    (a2, x) \<Rightarrow> (HttpRequest ''POST'' (stream_url w) # a1 @ a2, x, tf)))
          else ([HttpRequest ''POST'' (stream_url w),
                 EmitFinished '''' False
                   (''Error al generar audio: '' @ str_int (status_code r) @ '' - '' @
                    body_text r)], None, ''''))"

text \<open>
  The two \<open>except\<close> clauses; both report
  \<open>temp_file if temp_file and os.path.exists(temp_file) else ""\<close>.
\<close>

fun AudioGenerator_except :: "audio_env \<Rightarrow> string \<Rightarrow> exn option \<Rightarrow> string action list" where
  "AudioGenerator_except env tf None = []"
| "AudioGenerator_except env tf (Some (RequestException m)) =
     [EmitFinished (if tf \<noteq> [] \<and> path_exists env then tf else '''') False
        (''Error de red generando audio: '' @ m)]"
| "AudioGenerator_except env tf (Some (OtherException m)) =
     [EmitFinished (if tf \<noteq> [] \<and> path_exists env then tf else '''') False m]"

text \<open>\<open>AudioGenerator.run\<close>: the effects in order and the worker afterwards.\<close>

definition AudioGenerator_run ::
  "AudioGenerator \<Rightarrow> audio_env \<Rightarrow> string action list \<times> AudioGenerator" where
  "AudioGenerator_run w env =
     (if \<not> observe w (stop_before env) 0
      then ([EmitFinished '''' False audio_cancelled_before_start], w\<lparr>is_running := False\<rparr>)
      else (case AudioGenerator_try w env of
              (acts, x, tf) \<Rightarrow>
                (acts @ AudioGenerator_except env tf x, w\<lparr>is_running := False\<rparr>)))"

text \<open>The progress values of a trace, in order.\<close>

fun progress_values :: "'p action list \<Rightarrow> int list" where
  "progress_values [] = []"
| "progress_values (EmitProgress p # acts) = p # progress_values acts"
| "progress_values (a # acts) = progress_values acts"

text \<open>
  The value of \<open>int((total_size / expected_size) * 100)\<close> when nothing overflows and it
  is not negative.
\<close>

definition the_percent :: "int \<Rightarrow> int \<Rightarrow> int" where
  "the_percent t l = \<lfloor>fl_round (fl_round (of_int t / of_int l) * 100)\<rfloor>"

text \<open>The values of \<open>total_size\<close> after each non-empty chunk, starting from \<open>t\<close>.\<close>

fun running_totals :: "nat \<Rightarrow> string list \<Rightarrow> nat list" where
  "running_totals t [] = []"
| "running_totals t (c # cs) =
     (if c = [] then running_totals t cs
      else (t + length c) # running_totals (t + length c) cs)"

section \<open>Video: the Novita API client\<close>

definition NOVITA_API_BASE_URL :: string where
  "NOVITA_API_BASE_URL = ''https://api.novita.ai/v3/async''"

text \<open>The client holds \<open>self.api_key\<close> (\<open>client_key\<close> here).\<close>

record NovitaApiClient =
  client_key :: string




text \<open>
  The two \<open>except\<close> clauses of \<open>get_task_result\<close>. A triple is
  \<open>(status, result, message)\<close>.
\<close>

fun task_result_except :: "string \<Rightarrow> exn \<Rightarrow> json \<times> json \<times> string" where
  "task_result_except task_id (RequestException m) =
     (JStr ''failed'', JNull,
      ''Error de conexi'' @ [o_acute] @ ''n al consultar estado de tarea '' @ task_id @ '': '' @ m)"
| "task_result_except task_id (OtherException m) =
     (JStr ''failed'', JNull,
      ''Ocurri'' @ [o_acute] @ '' un error inesperado al consultar el estado de la tarea '' @
      task_id @ '': '' @ m)"

text \<open>What \<open>get_task_result\<close> makes of the decoded body of a 200 response.\<close>

definition task_result_of_data ::
  "(json \<Rightarrow> string) \<Rightarrow> json \<Rightarrow> exn + json \<times> json \<times> string" where
  "task_result_of_data str_json d =
     (case py_get d ''task'' (JObj []) of Inl e \<Rightarrow> Inl e | Inr task_data \<Rightarrow>
      (case py_get task_data ''status'' (JStr ''unknown'') of Inl e \<Rightarrow> Inl e | Inr status \<Rightarrow>
       (case py_get task_data ''result'' (JObj []) of Inl e \<Rightarrow> Inl e | Inr result \<Rightarrow>
        (case py_get task_data ''error_message'' JNull of Inl e \<Rightarrow> Inl e | Inr error_message \<Rightarrow>
           if status = JStr ''completed'' then
             (case py_get result ''video_url'' JNull of
                Inl e \<Rightarrow> Inl e
              | Inr video_url \<Rightarrow>
                  if truthy video_url
                  then Inr (status, result, ''Tarea completada exitosamente.'')
                  else Inr (JStr ''failed'', result,
                            ''Tarea completada, pero no se encontr'' @ [o_acute] @
                            '' la URL del video en el resultado.''))
           else if status = JStr ''failed'' then
             Inr (status, result,
                  ''Tarea fallida: '' @
                  (if truthy error_message then str_json error_message
                   else ''Motivo desconocido''))
           else Inr (status, result, ''Estado de la tarea: '' @ str_json status @ ''...'')))))"

text \<open>
  \<open>get_task_result\<close>: whether a request was sent, and the triple returned, given what
  \<open>requests.get\<close> does.
\<close>

definition get_task_result ::
  "(json \<Rightarrow> string) \<Rightarrow> NovitaApiClient \<Rightarrow> string \<Rightarrow> exn + response \<Rightarrow>
   bool \<times> json \<times> json \<times> string" where
  "get_task_result str_json c task_id http =
     (if client_key c = [] then (False, JStr ''failed'', JNull, ''API Key no proporcionada.'')
      else if task_id = [] then (False, JStr ''failed'', JNull, ''Task ID no proporcionado.'')
      else (True,
            case http of
              Inl e \<Rightarrow> task_result_except task_id e
            | Inr r \<Rightarrow>
                if status_code r = 200 then
                  (case json_body r of
                     Inl e \<Rightarrow> task_result_except task_id e
                   | Inr d \<Rightarrow>
                       (case task_result_of_data str_json d of
                          Inl e \<Rightarrow> task_result_except task_id e
                        | Inr t \<Rightarrow> t))
                else (JStr ''failed'', JNull,
                      ''Error al consultar estado de tarea '' @ task_id @ '': C'' @ [o_acute] @
                      ''digo '' @ str_int (status_code r) @ '' - '' @ body_text r)))"

section \<open>Video: the polling worker\<close>

record VideoTaskWorker = cancellable +
  api_client :: NovitaApiClient
  task_id :: string

definition VideoTaskWorker_init :: "NovitaApiClient \<Rightarrow> string \<Rightarrow> VideoTaskWorker" where
  "VideoTaskWorker_init c t = \<lparr>is_running = True, api_client = c, task_id = t\<rparr>"

text \<open>
  The effects of a run: each read of the flag with the value seen, the sleeps, the status
  queries sent, and the three signals.
\<close>

datatype video_action =
    ReadFlag bool
  | Sleep nat
  | Query string
  | StatusUpdated string
  | TaskCompleted json
  | TaskFailed string

text \<open>
  The surroundings of a run: the schedule of \<open>stop()\<close>, what the \<open>n\<close>-th status request
  does (counting from 0), and Python's \<open>str\<close> on decoded values.
\<close>

record video_env = schedule +
  poll_result :: "nat \<Rightarrow> exn + response"
  str_json :: "json \<Rightarrow> string"

definition polling_interval :: nat where "polling_interval = 5"

definition max_polls :: nat where "max_polls = 120"

definition completed_without_url :: string where
  "completed_without_url =
     ''La tarea complet'' @ [o_acute] @ '' pero no se encontr'' @ [o_acute] @ '' URL de video.''"

definition timed_out :: "string \<Rightarrow> string" where
  "timed_out tid =
     ''Tiempo de espera agotado. La tarea '' @ take 8 tid @ ''... podr'' @ [i_acute] @
     ''a seguir procesando.''"

text \<open>
  What one iteration does after the status update, from the triple of the query: the
  signal emitted, whether the worker cleared its own flag, and the exception raised by
  \<open>result.get\<close> (nothing in \<open>run\<close> would catch it).
\<close>

definition poll_outcome :: "json \<times> json \<times> string \<Rightarrow> video_action list \<times> bool \<times> exn option" where
  "poll_outcome t =
     (case t of (status, result, message) \<Rightarrow>
        if status = JStr ''completed'' then
          (case py_get result ''video_url'' JNull of
             Inl e \<Rightarrow> ([], False, Some e)
           | Inr video_url \<Rightarrow>
               if truthy video_url then ([TaskCompleted video_url], True, None)
               else ([TaskFailed completed_without_url], True, None))
        else if status = JStr ''failed'' then ([TaskFailed message], True, None)
        else ([], False, None))"

text \<open>
  What every iteration does before looking at the status: the loop test has read the
  flag as true, then the sleep, the query (when \<open>get_task_result\<close> sends one) and the
  status update.
\<close>

definition query_url :: "VideoTaskWorker \<Rightarrow> string" where
  "query_url w = NOVITA_API_BASE_URL @ ''/task-result?task_id='' @ task_id w"

definition poll_actions ::
  "VideoTaskWorker \<Rightarrow> bool \<times> json \<times> json \<times> string \<Rightarrow> video_action list" where
  "poll_actions w q =
     [ReadFlag True, Sleep polling_interval] @
     (if fst q then [Query (query_url w)] else []) @
     [StatusUpdated (''Tarea '' @ take 8 (task_id w) @ ''... - '' @ snd (snd (snd q)))]"

text \<open>
  The \<open>while self._is_running and poll_count < max_polls\<close> loop with bound \<open>n\<close>, from
  \<open>poll_count\<close>. The loop test of the iteration that starts at \<open>poll_count\<close> is read
  number \<open>poll_count\<close> of the flag. The result is the effects, the worker, the final
  \<open>poll_count\<close> and the exception that ended the run, if any.
\<close>

function poll_loop ::
  "video_env \<Rightarrow> nat \<Rightarrow> VideoTaskWorker \<Rightarrow> nat \<Rightarrow>
   video_action list \<times> VideoTaskWorker \<times> nat \<times> exn option" where
  "poll_loop env n w poll_count =
     (if \<not> observe w (stop_before env) poll_count then ([ReadFlag False], w, poll_count, None)
      else if \<not> poll_count < n then ([ReadFlag True], w, poll_count, None)
      else
        (case poll_outcome
                (snd (get_task_result (str_json env) (api_client w) (task_id w)
                        (poll_result env poll_count))) of
           (sig, cleared, Some e) \<Rightarrow>
             (poll_actions w
                (get_task_result (str_json env) (api_client w) (task_id w)
                   (poll_result env poll_count)) @ sig,
              w, Suc poll_count, Some e)
         | (sig, cleared, None) \<Rightarrow>
             (case poll_loop env n
                     (if cleared then w\<lparr>is_running := False\<rparr> else w) (Suc poll_count) of
                (rest, w', pc, y) \<Rightarrow>
                  (poll_actions w
                     (get_task_result (str_json env) (api_client w) (task_id w)
                        (poll_result env poll_count)) @ sig @ rest,
                   w', pc, y))))"
  by pat_completeness auto
termination
  by (relation "measure (\<lambda>(env, n, w, poll_count). n - poll_count)") auto

declare poll_loop.simps [simp del]

text \<open>
  \<open>VideoTaskWorker.run\<close> with the loop bound \<open>n\<close>: the first status update, the loop,
  and the closing \<open>if self._is_running\<close>, which is the read after the last loop test.
  The worker afterwards holds the flag as it was last read.
\<close>

definition run_polling ::
  "nat \<Rightarrow> VideoTaskWorker \<Rightarrow> video_env \<Rightarrow> video_action list \<times> VideoTaskWorker \<times> exn option" where
  "run_polling n w env =
     (case poll_loop env n w 0 of
        (acts, w', pc, x) \<Rightarrow>
          (case x of
             Some e \<Rightarrow>
               (StatusUpdated (''Iniciando monitoreo de tarea: '' @ task_id w) # acts, w', Some e)
           | None \<Rightarrow>
               (let b = observe w' (stop_before env) (Suc pc)
                in (StatusUpdated (''Iniciando monitoreo de tarea: '' @ task_id w) # acts @
                    [ReadFlag b] @ (if b then [TaskFailed (timed_out (task_id w))] else []),
                    w'\<lparr>is_running := b\<rparr>, None))))"

definition VideoTaskWorker_run ::
  "VideoTaskWorker \<Rightarrow> video_env \<Rightarrow> video_action list \<times> VideoTaskWorker \<times> exn option" where
  "VideoTaskWorker_run w env = run_polling max_polls w env"

text \<open>Reading a trace of the polling worker.\<close>

fun is_query :: "video_action \<Rightarrow> bool" where
  "is_query (Query u) = True"
| "is_query _ = False"

fun is_terminal :: "video_action \<Rightarrow> bool" where
  "is_terminal (TaskCompleted u) = True"
| "is_terminal (TaskFailed m) = True"
| "is_terminal _ = False"

fun is_read :: "video_action \<Rightarrow> bool" where
  "is_read (ReadFlag b) = True"
| "is_read _ = False"

text \<open>The effects of a run that can be seen from outside: everything but the flag reads.\<close>

definition effects :: "video_action list \<Rightarrow> video_action list" where
  "effects acts = filter (\<lambda>a. \<not> is_read a) acts"

text \<open>
  The query of poll number \<open>i\<close> leaves the task neither completed nor failed, and the
  effects of such an iteration.
\<close>

definition still_running :: "video_env \<Rightarrow> VideoTaskWorker \<Rightarrow> nat \<Rightarrow> bool" where
  "still_running env w i =
     (case get_task_result (str_json env) (api_client w) (task_id w) (poll_result env i) of
        (sent, status, result, message) \<Rightarrow>
          status \<noteq> JStr ''completed'' \<and> status \<noteq> JStr ''failed'')"

definition iteration :: "video_env \<Rightarrow> VideoTaskWorker \<Rightarrow> nat \<Rightarrow> video_action list" where
  "iteration env w i =
     [ReadFlag True, Sleep polling_interval, Query (query_url w),
      StatusUpdated (''Tarea '' @ take 8 (task_id w) @ ''... - '' @
        snd (snd (snd (get_task_result (str_json env) (api_client w) (task_id w)
                         (poll_result env i)))))]"

text \<open>
  A trace keeps the checkpoint discipline when every sleep comes directly after a read of
  the flag that saw it set, and every query directly after a sleep.
\<close>

datatype checkpoint = Idle | Checked | Slept

fun checked_from :: "checkpoint \<Rightarrow> video_action list \<Rightarrow> bool" where
  "checked_from s [] = True"
| "checked_from s (a # rest) =
     (case a of
        ReadFlag b \<Rightarrow> checked_from (if b then Checked else Idle) rest
      | Sleep d \<Rightarrow> s = Checked \<and> checked_from Slept rest
      | Query u \<Rightarrow> s = Slept \<and> checked_from Idle rest
      | _ \<Rightarrow> checked_from Idle rest)"

definition checked_before_wait_and_query :: "video_action list \<Rightarrow> bool" where
  "checked_before_wait_and_query acts = checked_from Idle acts"

section \<open>Images: the generator thread\<close>

datatype image_action =
    ProgressSignal string
  | ImagePost string
  | ResultSignal string
  | ErrorSignal string
  | FinishedSignal rat



fun is_result :: "image_action \<Rightarrow> bool" where
  "is_result (ResultSignal b) = True"
| "is_result (FinishedSignal t) = True"
| "is_result _ = False"

section \<open>Audio: the window's single worker slot\<close>

text \<open>
  The window keeps \<open>self.worker\<close> and \<open>self.worker_thread\<close>. A \<open>QThread\<close> is running
  from \<open>start()\<close> until its event loop has ended. \<open>spawned\<close> lists the workers for which
  a thread was started, and \<open>warnings\<close> counts the message boxes shown.
\<close>

record qthread =
  isRunning :: bool

text \<open>
  The window holds a reference to the current worker and one to its thread. Thread
  objects outlive the reference, so they are kept in a store (\<open>threads\<close>, every \<open>QThread\<close>
  created so far) and \<open>worker_thread\<close> is an index into it. \<open>_clear_worker_references\<close>
  is connected to the \<open>finished\<close> signal of each thread (line 380) and runs in the
  window's own thread: \<open>queued_clears\<close> counts the calls that a finished thread has
  posted and the window has not yet run.
\<close>

record ElevenLabsTTS =
  worker :: "nat option"
  worker_thread :: "nat option"
  threads :: "qthread list"
  queued_clears :: nat
  spawned :: "nat list"
  warnings :: nat

definition ElevenLabsTTS_init :: ElevenLabsTTS where
  "ElevenLabsTTS_init =
     \<lparr>worker = None, worker_thread = None, threads = [], queued_clears = 0,
      spawned = [], warnings = 0\<rparr>"

text \<open>\<open>_start_worker(worker_instance, ...)\<close>: the value returned and the window afterwards.\<close>

definition start_worker :: "ElevenLabsTTS \<Rightarrow> nat \<Rightarrow> bool \<times> ElevenLabsTTS" where
  "start_worker s worker_instance =
     (if worker_thread s \<noteq> None \<and> isRunning (threads s ! the (worker_thread s))
      then (False, s\<lparr>warnings := Suc (warnings s)\<rparr>)
      else (True, s\<lparr>worker := Some worker_instance,
                     worker_thread := Some (length (threads s)),
                     threads := threads s @ [\<lparr>isRunning = True\<rparr>],
                     spawned := spawned s @ [worker_instance]\<rparr>))"

text \<open>
  After the worker's \<open>finished\<close> signal the thread is asked to quit. When the event loop
  of thread \<open>t\<close> has ended, \<open>isRunning()\<close> is false for it and its own \<open>finished\<close> signal
  has posted a call of \<open>_clear_worker_references\<close> to the window.
\<close>

definition thread_finished :: "ElevenLabsTTS \<Rightarrow> nat \<Rightarrow> ElevenLabsTTS" where
  "thread_finished s t =
     (if t < length (threads s) \<and> isRunning (threads s ! t)
      then s\<lparr>threads := (threads s)[t := \<lparr>isRunning = False\<rparr>],
             queued_clears := Suc (queued_clears s)\<rparr>
      else s)"

definition clear_worker_references :: "ElevenLabsTTS \<Rightarrow> ElevenLabsTTS" where
  "clear_worker_references s = s\<lparr>worker := None, worker_thread := None\<rparr>"

text \<open>The window runs one posted call of \<open>_clear_worker_references\<close>, if there is one.\<close>

definition deliver_clear :: "ElevenLabsTTS \<Rightarrow> ElevenLabsTTS" where
  "deliver_clear s =
     (if 0 < queued_clears s
      then clear_worker_references (s\<lparr>queued_clears := queued_clears s - 1\<rparr>)
      else s)"

text \<open>A sequence of start requests, one after the other: the values returned and the window.\<close>

fun start_all :: "ElevenLabsTTS \<Rightarrow> nat list \<Rightarrow> bool list \<times> ElevenLabsTTS" where
  "start_all s [] = ([], s)"
| "start_all s (x # xs) =
     (case start_worker s x of
        (b, s') \<Rightarrow> (case start_all s' xs of (bs, s'') \<Rightarrow> (b # bs, s'')))"




definition running_threads :: "ElevenLabsTTS \<Rightarrow> nat list" where
  "running_threads s = filter (\<lambda>t. isRunning (threads s ! t)) [0..<length (threads s)]"

text \<open>Every running thread is the one the window's reference points to.\<close>

definition only_slot_runs :: "ElevenLabsTTS \<Rightarrow> bool" where
  "only_slot_runs s =
     list_all (\<lambda>t. isRunning (threads s ! t) \<longrightarrow> worker_thread s = Some t)
       [0..<length (threads s)]"

section \<open>The flag over the life of a worker object\<close>

text \<open>
  What can happen to a worker object once constructed: \<open>stop()\<close> is called, or \<open>run\<close>
  executes in some surroundings.
\<close>

datatype 'e worker_op = Stop | Run 'e

fun ApiWorker_apply :: "ApiWorker \<Rightarrow> api_env worker_op \<Rightarrow> ApiWorker" where
  "ApiWorker_apply w Stop = stop w"
| "ApiWorker_apply w (Run env) = snd (ApiWorker_run w env)"

fun AudioGenerator_apply :: "AudioGenerator \<Rightarrow> audio_env worker_op \<Rightarrow> AudioGenerator" where
  "AudioGenerator_apply w Stop = stop w"
| "AudioGenerator_apply w (Run env) = snd (AudioGenerator_run w env)"

fun VideoTaskWorker_apply :: "VideoTaskWorker \<Rightarrow> video_env worker_op \<Rightarrow> VideoTaskWorker" where
  "VideoTaskWorker_apply w Stop = stop w"
| "VideoTaskWorker_apply w (Run env) = fst (snd (VideoTaskWorker_run w env))"

section \<open>Concrete surroundings used to exercise the workers\<close>

definition demo_generator :: AudioGenerator where
  "demo_generator = AudioGenerator_init ''key'' ''21m00Tcm4TlvDq8ikWAM'' ''hola'' ''eleven_multilingual_v2'' (1 / 2) (3 / 4)"

definition demo_stream :: "int \<Rightarrow> string list \<Rightarrow> audio_env" where
  "demo_stream l cs =
     \<lparr>stop_before = None,
      post_result = Inr \<lparr>status_code = 200, body_text = '''', content = '''',
                          json_body = Inl (RequestException ''Expecting value''),
                          content_length = Length l, chunks = cs, stream_error = None\<rparr>,
      temp_dir_exists = True, makedirs_error = None, open_error = None,
      write_error = (\<lambda>i. None), close_error = None,
      temp_file = ''/home/user/.elevenlabs_tts/temp_audio_0a1b2c3d.mp3'',
      path_exists = True\<rparr>"

definition demo_client :: NovitaApiClient where
  "demo_client = \<lparr>client_key = ''key''\<rparr>"

definition demo_video_worker :: VideoTaskWorker where
  "demo_video_worker = VideoTaskWorker_init demo_client ''task-1234567890''"

definition processing_response :: response where
  "processing_response =
     \<lparr>status_code = 200, body_text = ''{}'', content = ''{}'',
      json_body = Inr (JObj [(''task'', JObj [(''status'', JStr ''processing'')])])\<rparr>"

definition demo_video_env :: "nat option \<Rightarrow> video_env" where
  "demo_video_env s =
     \<lparr>stop_before = s, poll_result = (\<lambda>i. Inr processing_response),
      str_json = (\<lambda>j. case j of JStr t \<Rightarrow> t | _ \<Rightarrow> ''?'')\<rparr>"


definition failed_response :: response where
  "failed_response =
     \<lparr>status_code = 200, body_text = ''{}'', content = ''{}'',
      json_body = Inr (JObj [(''task'', JObj [(''status'', JStr ''failed''),
                                              (''error_message'', JStr ''out of memory'')])])\<rparr>"

definition failing_video_env :: video_env where
  "failing_video_env =
     \<lparr>stop_before = None, poll_result = (\<lambda>i. Inr failed_response),
      str_json = (\<lambda>j. case j of JStr t \<Rightarrow> t | _ \<Rightarrow> ''?'')\<rparr>"

section \<open>Properties of the simple request worker\<close>

lemma ApiWorker_request_bound:
  "http_method w = ''GET'' \<or> http_method w = ''POST'' \<Longrightarrow>
   ApiWorker_request w env =
     ([HttpRequest (http_method w) (endpoint w)], map_sum id Some (http_result env))"
  by (auto simp: ApiWorker_request_def)

lemma ApiWorker_except_no_success: "a \<in> set (ApiWorker_except x) \<Longrightarrow> \<not> is_success a"
  by (cases x rule: ApiWorker_except.cases) auto

lemma ApiWorker_deliver_success:
  "ApiWorker_deliver w r = (acts, x) \<Longrightarrow> a \<in> set acts \<Longrightarrow> is_success a \<Longrightarrow>
   status_code r = 200"
  by (auto simp: ApiWorker_deliver_def split: if_splits sum.splits)

lemma ApiWorker_request_no_success:
  "ApiWorker_request w env = (acts, res) \<Longrightarrow> a \<in> set acts \<Longrightarrow> \<not> is_success a"
  by (auto simp: ApiWorker_request_def split: if_splits)

lemma ApiWorker_request_response:
  "ApiWorker_request w env = (acts, Inr (Some r)) \<Longrightarrow> http_result env = Inr r"
  by (cases "http_result env") (auto simp: ApiWorker_request_def split: if_splits)

lemma ApiWorker_try_success:
  assumes "ApiWorker_try w env = (acts, x)" and "a \<in> set acts" and "is_success a"
  shows "\<exists>r. http_result env = Inr r \<and> status_code r = 200"
proof -
  obtain a1 res where req: "ApiWorker_request w env = (a1, res)"
    by (cases "ApiWorker_request w env")
  have n1: "\<And>b. b \<in> set a1 \<Longrightarrow> \<not> is_success b"
    using ApiWorker_request_no_success [OF req] by blast
  show ?thesis
  proof (cases res)
    case (Inl e)
    with assms req n1 show ?thesis by (auto simp: ApiWorker_try_def)
  next
    case (Inr ro)
    show ?thesis
    proof (cases ro)
      case None
      with assms req n1 Inr show ?thesis
        by (auto simp: ApiWorker_try_def split: if_splits)
    next
      case (Some r)
      obtain a2 y where del: "ApiWorker_deliver w r = (a2, y)"
        by (cases "ApiWorker_deliver w r")
      from req Inr Some have hr: "http_result env = Inr r"
        by (simp add: ApiWorker_request_response)
      from assms req n1 Inr Some del have "a \<in> set a2"
        by (auto simp: ApiWorker_try_def split: if_splits)
      then have "status_code r = 200"
        using ApiWorker_deliver_success [OF del] assms(3) by blast
      with hr show ?thesis by simp
    qed
  qed
qed

lemma ApiWorker_success_needs_200:
  assumes "a \<in> set (fst (ApiWorker_run w env))" and "is_success a"
  shows "\<exists>r. http_result env = Inr r \<and> status_code r = 200"
proof (cases "observe w (stop_before env) 0")
  case False
  with assms show ?thesis by (simp add: ApiWorker_run_def)
next
  case True
  obtain acts x where t: "ApiWorker_try w env = (acts, x)"
    by (cases "ApiWorker_try w env")
  from assms True t have "a \<in> set acts \<or> a \<in> set (ApiWorker_except x)"
    by (auto simp: ApiWorker_run_def)
  with assms(2) have "a \<in> set acts"
    using ApiWorker_except_no_success by blast
  then show ?thesis
    using ApiWorker_try_success [OF t] assms(2) by blast
qed

text \<open>
  C7. A response whose status code is outside 200..299 never makes the simple request
  worker report success, and when the flag is still set after the request the run is
  the request followed by one failure that carries the status code and the body. A raised
  \<open>RequestException\<close> never makes it report success either, and the run is the request
  followed by one failure that carries the exception's message.
\<close>

theorem C7_http_status_and_network_failures:
  "(http_result env = Inr r \<and> (status_code r < 200 \<or> 299 < status_code r) \<longrightarrow>
      \<not> (\<exists>a \<in> set (fst (ApiWorker_run w env)). is_success a) \<and>
      ((http_method w = ''GET'' \<or> http_method w = ''POST'') \<and> observe w (stop_before env) 1 \<longrightarrow>
         fst (ApiWorker_run w env) =
           [HttpRequest (http_method w) (endpoint w),
            EmitFinished PNone False
              (''Error: '' @ str_int (status_code r) @ '' - '' @ body_text r)])) \<and>
   (http_result env = Inl (RequestException m) \<longrightarrow>
      \<not> (\<exists>a \<in> set (fst (ApiWorker_run w env)). is_success a) \<and>
      ((http_method w = ''GET'' \<or> http_method w = ''POST'') \<and> observe w (stop_before env) 0 \<longrightarrow>
         fst (ApiWorker_run w env) =
           [HttpRequest (http_method w) (endpoint w),
            EmitFinished PNone False (''Error de red: '' @ m)]))"
proof (intro conjI impI)
  assume "http_result env = Inr r \<and> (status_code r < 200 \<or> 299 < status_code r)"
  then show "\<not> (\<exists>a \<in> set (fst (ApiWorker_run w env)). is_success a)"
    using ApiWorker_success_needs_200 [of _ w env] by fastforce
next
  assume h: "http_result env = Inr r \<and> (status_code r < 200 \<or> 299 < status_code r)"
    and g: "(http_method w = ''GET'' \<or> http_method w = ''POST'') \<and> observe w (stop_before env) 1"
  from g have o0: "observe w (stop_before env) 0"
    by (auto simp: observe_def split: option.splits)
  from h have ne: "status_code r \<noteq> 200" by auto
  from h g have req: "ApiWorker_request w env =
      ([HttpRequest (http_method w) (endpoint w)], Inr (Some r))"
    by (simp add: ApiWorker_request_bound)
  from g o0 ne req show "fst (ApiWorker_run w env) =
     [HttpRequest (http_method w) (endpoint w),
      EmitFinished PNone False (''Error: '' @ str_int (status_code r) @ '' - '' @ body_text r)]"
    by (simp add: ApiWorker_run_def ApiWorker_try_def ApiWorker_deliver_def)
next
  assume "http_result env = Inl (RequestException m)"
  then show "\<not> (\<exists>a \<in> set (fst (ApiWorker_run w env)). is_success a)"
    using ApiWorker_success_needs_200 [of _ w env] by fastforce
next
  assume h: "http_result env = Inl (RequestException m)"
    and g: "(http_method w = ''GET'' \<or> http_method w = ''POST'') \<and> observe w (stop_before env) 0"
  then have req: "ApiWorker_request w env =
      ([HttpRequest (http_method w) (endpoint w)], Inl (RequestException m))"
    by (simp add: ApiWorker_request_bound)
  from g req show "fst (ApiWorker_run w env) =
     [HttpRequest (http_method w) (endpoint w), EmitFinished PNone False (''Error de red: '' @ m)]"
    by (simp add: ApiWorker_run_def ApiWorker_try_def)
qed

theorem C7_witness:
  "fst (ApiWorker_run (ApiWorker_init ''k'' ''https://api.elevenlabs.io/v1/user'' ''GET'' None)
          \<lparr>stop_before = None,
           http_result = Inr \<lparr>status_code = 404, body_text = ''Not Found'',
                                content = ''Not Found'',
                                json_body = Inl (RequestException ''Expecting value'')\<rparr>\<rparr>) =
     [HttpRequest ''GET'' ''https://api.elevenlabs.io/v1/user'',
      EmitFinished PNone False ''Error: 404 - Not Found''] \<and>
   fst (ApiWorker_run (ApiWorker_init ''k'' ''https://api.elevenlabs.io/v1/user'' ''GET'' None)
          \<lparr>stop_before = None, http_result = Inl (RequestException ''timed out'')\<rparr>) =
     [HttpRequest ''GET'' ''https://api.elevenlabs.io/v1/user'',
      EmitFinished PNone False ''Error de red: timed out'']"
  using
    C7_http_status_and_network_failures
      [of "\<lparr>stop_before = None,
            http_result = Inr \<lparr>status_code = 404, body_text = ''Not Found'',
                                 content = ''Not Found'',
                                 json_body = Inl (RequestException ''Expecting value'')\<rparr>\<rparr>"
          "\<lparr>status_code = 404, body_text = ''Not Found'', content = ''Not Found'',
            json_body = Inl (RequestException ''Expecting value'')\<rparr>"
          "ApiWorker_init ''k'' ''https://api.elevenlabs.io/v1/user'' ''GET'' None" "''x''"]
    C7_http_status_and_network_failures
      [of "\<lparr>stop_before = None, http_result = Inl (RequestException ''timed out'')\<rparr>"
          "\<lparr>status_code = 404, body_text = ''Not Found'', content = ''Not Found'',
            json_body = Inl (RequestException ''Expecting value'')\<rparr>"
          "ApiWorker_init ''k'' ''https://api.elevenlabs.io/v1/user'' ''GET'' None"
          "''timed out''"]
  by (simp add: ApiWorker_init_def observe_def str_int_def str_nat.simps)
section \<open>Properties of the float rounding\<close>

lemma rhe_bounds: "of_int (round_half_even x) \<le> x + 1/2 \<and> x - 1/2 \<le> of_int (round_half_even x)"
  unfolding round_half_even_def Let_def by (auto; linarith)

lemma rhe_of_int: "round_half_even (of_int n) = n"
  unfolding round_half_even_def Let_def by simp

lemma rhe_mono: assumes "x \<le> y" shows "round_half_even x \<le> round_half_even y"
proof (cases "\<lfloor>x\<rfloor> = \<lfloor>y\<rfloor>")
  case True
  then show ?thesis using assms unfolding round_half_even_def Let_def by auto
next
  case False
  with assms have lt: "\<lfloor>x\<rfloor> < \<lfloor>y\<rfloor>" by (simp add: floor_mono order.strict_iff_order)
  have a: "round_half_even x \<le> \<lfloor>x\<rfloor> + 1" unfolding round_half_even_def Let_def by auto
  have b: "\<lfloor>y\<rfloor> \<le> round_half_even y" unfolding round_half_even_def Let_def by auto
  from a b lt show ?thesis by linarith
qed

lemma powi_nat: "0 \<le> n \<Longrightarrow> (2::rat) powi n = 2 ^ nat n"
  by (simp add: power_int_def)

lemma flog2_bounds:
  assumes "0 < x"
  shows "2 powi (flog2 x) \<le> x \<and> x < 2 powi (flog2 x + 1)"
proof -
  obtain a b where q: "quotient_of x = (a, b)" by (cases "quotient_of x")
  then have b: "0 < b" and x: "x = of_int a / of_int b"
    using quotient_of_denom_pos quotient_of_div by auto
  with assms have a: "0 < a" by (simp add: zero_less_divide_iff)
  define A where "A = bitlen a"
  define B where "B = bitlen b"
  have A1: "1 \<le> A" and B1: "1 \<le> B" using a b unfolding A_def B_def by (simp_all add: bitlen_def floorlog_def)
  have ba: "(2::int) ^ nat (A - 1) \<le> a \<and> a < 2 ^ nat A" unfolding A_def using bitlen_bounds [OF a] by simp
  have bb: "(2::int) ^ nat (B - 1) \<le> b \<and> b < 2 ^ nat B" unfolding B_def using bitlen_bounds [OF b] by simp
  have ra: "(2::rat) powi (A - 1) \<le> of_int a \<and> of_int a < (2::rat) powi A"
  proof -
    have "(of_int ((2::int) ^ nat (A - 1)) :: rat) \<le> of_int a" using ba by (simp only: of_int_le_iff)
    moreover have "(of_int a :: rat) < of_int ((2::int) ^ nat A)" using ba by (simp only: of_int_less_iff)
    ultimately show ?thesis using A1 by (simp add: powi_nat)
  qed
  have rb: "(2::rat) powi (B - 1) \<le> of_int b \<and> of_int b < (2::rat) powi B"
  proof -
    have "(of_int ((2::int) ^ nat (B - 1)) :: rat) \<le> of_int b" using bb by (simp only: of_int_le_iff)
    moreover have "(of_int b :: rat) < of_int ((2::int) ^ nat B)" using bb by (simp only: of_int_less_iff)
    ultimately show ?thesis using B1 by (simp add: powi_nat)
  qed
  have bpos: "(0::rat) < of_int b" using b by simp
  have upper: "x < 2 powi (A - B + 1)"
  proof -
    have "of_int a < (2::rat) powi (A - B + 1) * 2 powi (B - 1)"
      using ra by (simp add: power_int_add [symmetric])
    also have "\<dots> \<le> 2 powi (A - B + 1) * of_int b"
      using rb by (simp add: mult_left_mono)
    finally show ?thesis using bpos by (simp add: x pos_divide_less_eq)
  qed
  have lower: "2 powi (A - B - 1) \<le> x"
  proof -
    have "(2::rat) powi (A - B - 1) * of_int b \<le> 2 powi (A - B - 1) * 2 powi B"
      using rb by (simp add: mult_left_mono)
    also have "\<dots> = 2 powi (A - 1)" by (simp add: power_int_add [symmetric])
    also have "\<dots> \<le> of_int a" using ra by simp
    finally show ?thesis using bpos by (simp add: x pos_le_divide_eq)
  qed
  show ?thesis
  proof (cases "2 powi (A - B) \<le> x")
    case True
    then have "flog2 x = A - B" by (simp add: flog2_def q A_def B_def)
    with True upper show ?thesis by simp
  next
    case False
    then have "flog2 x = A - B - 1" by (simp add: flog2_def q A_def B_def)
    with False lower show ?thesis by simp
  qed
qed


lemma powi_shift: "(2::rat) powi (e + m) = 2 powi m * 2 powi e"
  by (simp add: power_int_add mult.commute)

lemma flog2_mono:
  assumes "0 < x" and "x \<le> y"
  shows "flog2 x \<le> flog2 y"
proof (rule ccontr)
  assume "\<not> flog2 x \<le> flog2 y"
  then have "flog2 y + 1 \<le> flog2 x" by simp
  then have "(2::rat) powi (flog2 y + 1) \<le> 2 powi (flog2 x)"
    by (rule power_int_increasing) simp
  moreover have "2 powi (flog2 x) \<le> x" using flog2_bounds [OF assms(1)] by simp
  moreover have "y < 2 powi (flog2 y + 1)" using flog2_bounds [of y] assms by simp
  ultimately show False using assms(2) by linarith
qed

lemma fl_round_pos:
  "x \<noteq> 0 \<Longrightarrow> fl_round x = of_int (round_half_even (x / 2 powi (fl_exp x - 52))) * 2 powi (fl_exp x - 52)"
  by (simp add: fl_round_def Let_def)

lemma rhe_nonneg: "0 \<le> x \<Longrightarrow> 0 \<le> round_half_even x"
  using rhe_mono [of 0 x] rhe_of_int [of 0] by simp

lemma fl_round_nonneg:
  assumes "0 \<le> x" shows "0 \<le> fl_round x"
proof (cases "x = 0")
  case True then show ?thesis by (simp add: fl_round_def)
next
  case False
  have "(0::rat) < 2 powi (fl_exp x - 52)" by (simp add: zero_less_power_int)
  with assms have "0 \<le> x / 2 powi (fl_exp x - 52)" by simp
  then have "0 \<le> round_half_even (x / 2 powi (fl_exp x - 52))" by (rule rhe_nonneg)
  with False show ?thesis by (simp add: fl_round_pos zero_less_power_int)
qed

lemma fl_round_upper:
  assumes "0 < x" shows "fl_round x \<le> 2 powi (fl_exp x + 1)"
proof -
  let ?u = "(2::rat) powi (fl_exp x - 52)"
  have u: "0 < ?u" by (simp add: zero_less_power_int)
  have "x < 2 powi (flog2 x + 1)" using flog2_bounds [OF assms] by simp
  also have "\<dots> \<le> 2 powi (fl_exp x + 1)"
    using assms by (intro power_int_increasing) (simp_all add: fl_exp_def)
  also have "\<dots> = 2 powi 53 * ?u"
    using powi_shift [of "fl_exp x - 52" 53] by (simp add: add.commute)
  finally have "x / ?u \<le> 2 powi 53" using u by (simp add: pos_divide_le_eq)
  also have "(2::rat) powi 53 = of_int (2 ^ 53)" by (simp add: power_int_def)
  finally have "round_half_even (x / ?u) \<le> round_half_even (of_int (2 ^ 53))" by (rule rhe_mono)
  then have "round_half_even (x / ?u) \<le> 2 ^ 53" by (simp only: rhe_of_int)
  then have "(of_int (round_half_even (x / ?u)) :: rat) \<le> of_int (2 ^ 53)" by (simp only: of_int_le_iff)
  then have "of_int (round_half_even (x / ?u)) * ?u \<le> of_int (2 ^ 53) * ?u"
    using u by (intro mult_right_mono) simp_all
  also have "(of_int (2 ^ 53) :: rat) = 2 powi 53" by (simp add: power_int_def)
  also have "(2::rat) powi 53 * ?u = 2 powi (fl_exp x + 1)"
    using powi_shift [of "fl_exp x - 52" 53] by (simp add: add.commute)
  finally show ?thesis using assms by (simp add: fl_round_pos)
qed

lemma fl_round_lower:
  assumes "0 < x" and "- 1022 \<le> flog2 x" shows "2 powi (fl_exp x) \<le> fl_round x"
proof -
  let ?u = "(2::rat) powi (fl_exp x - 52)"
  have u: "0 < ?u" by (simp add: zero_less_power_int)
  have e: "fl_exp x = flog2 x" using assms by (simp add: fl_exp_def)
  have "(2::rat) powi 52 * ?u = 2 powi (fl_exp x)"
    using powi_shift [of "fl_exp x - 52" 52] by simp
  also have "\<dots> \<le> x" using flog2_bounds [OF assms(1)] e by simp
  finally have "2 powi 52 \<le> x / ?u" using u by (simp add: pos_le_divide_eq)
  moreover have "(2::rat) powi 52 = of_int (2 ^ 52)" by (simp add: power_int_def)
  ultimately have "of_int (2 ^ 52) \<le> x / ?u" by simp
  then have "round_half_even (of_int (2 ^ 52)) \<le> round_half_even (x / ?u)" by (rule rhe_mono)
  then have "2 ^ 52 \<le> round_half_even (x / ?u)" by (simp only: rhe_of_int)
  then have "(of_int (2 ^ 52) :: rat) \<le> of_int (round_half_even (x / ?u))" by (simp only: of_int_le_iff)
  then have "of_int (2 ^ 52) * ?u \<le> of_int (round_half_even (x / ?u)) * ?u"
    using u by (intro mult_right_mono) simp_all
  moreover have "of_int (2 ^ 52) * ?u = 2 powi (fl_exp x)"
    using powi_shift [of "fl_exp x - 52" 52] by simp
  moreover have "fl_round x = of_int (round_half_even (x / ?u)) * ?u"
    using assms by (simp add: fl_round_pos)
  ultimately show ?thesis by (simp only:)
qed

lemma fl_round_mono:
  assumes "0 \<le> x" and "x \<le> y"
  shows "fl_round x \<le> fl_round y"
proof (cases "x = 0")
  case True
  then show ?thesis using fl_round_nonneg [of y] assms by (simp add: fl_round_def)
next
  case False
  with assms have x: "0 < x" and y: "0 < y" by simp_all
  have le: "fl_exp x \<le> fl_exp y"
    using flog2_mono [OF x assms(2)] x y by (simp add: fl_exp_def)
  show ?thesis
  proof (cases "fl_exp x = fl_exp y")
    case True
    let ?u = "(2::rat) powi (fl_exp y - 52)"
    have u: "0 < ?u" by (simp add: zero_less_power_int)
    have "x / ?u \<le> y / ?u" using assms(2) u by (simp add: divide_right_mono)
    then have "round_half_even (x / ?u) \<le> round_half_even (y / ?u)" by (rule rhe_mono)
    then have "(of_int (round_half_even (x / ?u)) :: rat) \<le> of_int (round_half_even (y / ?u))"
      by (simp only: of_int_le_iff)
    then have "of_int (round_half_even (x / ?u)) * ?u \<le> of_int (round_half_even (y / ?u)) * ?u"
      using u by (intro mult_right_mono) simp_all
    then show ?thesis using x y True by (simp add: fl_round_pos)
  next
    case False
    with le have lt: "fl_exp x + 1 \<le> fl_exp y" by simp
    then have "- 1022 \<le> flog2 y" using y by (simp add: fl_exp_def max_def split: if_splits)
    then have "2 powi (fl_exp y) \<le> fl_round y" using fl_round_lower [OF y] by simp
    moreover have "fl_round x \<le> 2 powi (fl_exp x + 1)" by (rule fl_round_upper [OF x])
    moreover have "(2::rat) powi (fl_exp x + 1) \<le> 2 powi (fl_exp y)"
      using lt by (rule power_int_increasing) simp
    ultimately show ?thesis by linarith
  qed
qed

lemma fl_round_1: "fl_round 1 = 1" by code_simp
lemma fl_round_100: "fl_round 100 = 100" by code_simp

section \<open>Properties of the progress computation and of the download loop\<close>

lemma quotient_rounds_into_unit:
  assumes "0 \<le> t" and "t \<le> l" and "0 < l"
  shows "0 \<le> fl_round (of_int t / of_int l) \<and> fl_round (of_int t / of_int l) \<le> 1"
proof -
  have a: "(0::rat) \<le> of_int t / of_int l" using assms by simp
  have b: "(of_int t / of_int l :: rat) \<le> 1" using assms by (simp add: pos_divide_le_eq)
  from a have "0 \<le> fl_round (of_int t / of_int l)" by (rule fl_round_nonneg)
  moreover from a b have "fl_round (of_int t / of_int l) \<le> fl_round 1" by (rule fl_round_mono)
  ultimately show ?thesis by (simp add: fl_round_1)
qed

lemma product_rounds_into_hundred:
  assumes "0 \<le> q" and "q \<le> 1"
  shows "0 \<le> fl_round (q * 100) \<and> fl_round (q * 100) \<le> 100"
proof -
  have a: "0 \<le> q * 100" using assms by simp
  have b: "q * 100 \<le> 100" using assms by simp
  from a have "0 \<le> fl_round (q * 100)" by (rule fl_round_nonneg)
  moreover from a b have "fl_round (q * 100) \<le> fl_round 100" by (rule fl_round_mono)
  ultimately show ?thesis by (simp add: fl_round_100)
qed

lemma two_pow_1024_large: "(100::rat) < 2 ^ 1024"
proof -
  have "(100::rat) < 2 ^ 7" by simp
  also have "\<dots> \<le> 2 ^ 1024" by (rule power_increasing) simp_all
  finally show ?thesis .
qed

lemma progress_percent_eq:
  assumes "0 \<le> t" and "t \<le> l" and "0 < l"
  shows "progress_percent t l = Inr (the_percent t l)"
proof -
  let ?q = "fl_round (of_int t / of_int l)"
  let ?p = "fl_round (?q * 100)"
  have q: "0 \<le> ?q \<and> ?q \<le> 1" using assms by (rule quotient_rounds_into_unit)
  then have p: "0 \<le> ?p \<and> ?p \<le> 100" by (intro product_rounds_into_hundred) simp_all
  have big: "(100::rat) < 2 ^ 1024" by (rule two_pow_1024_large)
  from q big have "\<not> (2 ^ 1024 \<le> \<bar>?q\<bar>)" by linarith
  with assms have d: "int_truediv t l = Inr ?q" by (simp add: int_truediv_def Let_def)
  from p big have "\<not> (2 ^ 1024 \<le> ?p)" and "\<not> (?p \<le> - (2 ^ 1024))" by linarith+
  then have m: "float_mul ?q 100 = Finite ?p" by (simp add: float_mul_def Let_def)
  from d m p show ?thesis by (simp add: progress_percent_def the_percent_def)
qed

lemma the_percent_range:
  assumes "0 \<le> t" and "t \<le> l" and "0 < l"
  shows "0 \<le> the_percent t l \<and> the_percent t l \<le> 100"
proof -
  let ?q = "fl_round (of_int t / of_int l)"
  have q: "0 \<le> ?q \<and> ?q \<le> 1" using assms by (rule quotient_rounds_into_unit)
  then have p: "0 \<le> fl_round (?q * 100) \<and> fl_round (?q * 100) \<le> 100"
    by (intro product_rounds_into_hundred) simp_all
  then show ?thesis unfolding the_percent_def by (simp add: floor_le_iff le_floor_iff)
qed

lemma the_percent_mono:
  assumes "0 \<le> t" and "t \<le> t'" and "0 < l"
  shows "the_percent t l \<le> the_percent t' l"
proof -
  have a: "(0::rat) \<le> of_int t / of_int l" using assms by simp
  have b: "(of_int t / of_int l :: rat) \<le> of_int t' / of_int l"
    using assms by (simp add: divide_right_mono)
  from a b have q: "fl_round (of_int t / of_int l) \<le> fl_round (of_int t' / of_int l)"
    by (rule fl_round_mono)
  have "0 \<le> fl_round (of_int t / of_int l)" using a by (rule fl_round_nonneg)
  then have "0 \<le> fl_round (of_int t / of_int l) * 100" by simp
  moreover have "fl_round (of_int t / of_int l) * 100 \<le> fl_round (of_int t' / of_int l) * 100"
    using q by simp
  ultimately have "fl_round (fl_round (of_int t / of_int l) * 100)
      \<le> fl_round (fl_round (of_int t' / of_int l) * 100)" by (rule fl_round_mono)
  then show ?thesis unfolding the_percent_def by (rule floor_mono)
qed

lemma progress_percent_eval:
  assumes "l \<noteq> 0" and "fl_round (of_int t / of_int l) = q" and "fl_round (q * 100) = p"
    and "\<bar>q\<bar> \<le> 2 ^ 10" and "\<bar>p\<bar> \<le> 2 ^ 10"
  shows "progress_percent t l = Inr (if 0 \<le> p then \<lfloor>p\<rfloor> else \<lceil>p\<rceil>)"
proof -
  have "(2::rat) ^ 10 < 2 ^ 1024" by (rule power_strict_increasing) simp_all
  with assms have q: "\<not> (2 ^ 1024 \<le> \<bar>q\<bar>)" and p: "\<not> (2 ^ 1024 \<le> p)" "\<not> (p \<le> - (2 ^ 1024))"
    by linarith+
  from assms(1,2) q have d: "int_truediv t l = Inr q" by (simp add: int_truediv_def Let_def)
  from assms(3) p have m: "float_mul q 100 = Finite p" by (simp add: float_mul_def Let_def)
  from d m show ?thesis by (simp add: progress_percent_def)
qed

lemma percent_29_of_100: "progress_percent 29 100 = Inr 28"
proof -
  have a: "fl_round (of_int 29 / of_int 100) = 5224175567749775 / 18014398509481984"
    by code_simp
  have b: "fl_round (5224175567749775 / 18014398509481984 * 100) =
      8162774324609023 / 281474976710656"
    by code_simp
  have "progress_percent 29 100 =
      Inr (if 0 \<le> (8162774324609023 / 281474976710656 :: rat)
           then \<lfloor>8162774324609023 / 281474976710656 :: rat\<rfloor>
           else \<lceil>8162774324609023 / 281474976710656 :: rat\<rceil>)"
    by (rule progress_percent_eval [OF _ a b]) simp_all
  moreover have "\<lfloor>8162774324609023 / 281474976710656 :: rat\<rfloor> = 28"
    by (rule floor_unique) simp_all
  ultimately show ?thesis by simp
qed

lemma percent_20_of_10: "progress_percent 20 10 = Inr 200"
proof -
  have a: "fl_round (of_int 20 / of_int 10) = 2" by code_simp
  have b: "fl_round (2 * 100) = 200" by code_simp
  have "progress_percent 20 10 =
      Inr (if 0 \<le> (200 :: rat) then \<lfloor>200 :: rat\<rfloor> else \<lceil>200 :: rat\<rceil>)"
    by (rule progress_percent_eval [OF _ a b]) simp_all
  then show ?thesis by simp
qed

lemma no_finished_append [simp]: "no_finished (a @ b) = (no_finished a \<and> no_finished b)"
  by (simp add: no_finished_def)

lemma no_finished_Nil [simp]: "no_finished []"
  by (simp add: no_finished_def)

lemma no_finished_Cons [simp]: "no_finished (a # b) = (\<not> is_finished a \<and> no_finished b)"
  by (simp add: no_finished_def)

lemma single_outcome_snoc [simp]:
  "single_outcome (pre @ [a]) = (is_finished a \<and> no_finished pre)"
  by (auto simp: single_outcome_def)

lemma single_outcome_one [simp]: "single_outcome [a] = is_finished a"
  by (simp add: single_outcome_def)

lemma single_outcome_Cons:
  "\<not> is_finished a \<Longrightarrow> single_outcome acts \<Longrightarrow> single_outcome (a # acts)"
  by (cases acts rule: rev_cases) (auto simp: single_outcome_def butlast_append)

lemma single_outcome_prepend:
  "no_finished pre \<Longrightarrow> single_outcome acts \<Longrightarrow> single_outcome (pre @ acts)"
  by (induction pre) (auto intro: single_outcome_Cons)

lemma progress_values_append:
  "progress_values (a @ b) = progress_values a @ progress_values b"
  by (induction a rule: progress_values.induct) simp_all

lemma no_success_no_finished: "no_finished acts \<Longrightarrow> a \<in> set acts \<Longrightarrow> \<not> is_success a"
  by (cases a) (auto simp: no_finished_def list_all_iff)

section \<open>Properties of the status query and of the polling loop\<close>

lemma task_result_except_failed: "fst (task_result_except tid e) = JStr ''failed''"
  by (cases e) simp_all

lemma py_get_video_url_cases:
  "(\<exists>e. py_get result k d = Inl e) \<or> (\<exists>v. py_get result k d = Inr v)"
  by (cases "py_get result k d") auto

lemma completed_ne_failed [simp]: "JStr ''completed'' \<noteq> JStr ''failed''" "JStr ''failed'' \<noteq> JStr ''completed''"
  by simp_all

lemma task_result_of_data_completed:
  assumes "task_result_of_data sj d = Inr (JStr ''completed'', result, m)"
  shows "\<exists>v. py_get result ''video_url'' JNull = Inr v \<and> truthy v"
proof -
  from assms obtain task_data where 1: "py_get d ''task'' (JObj []) = Inr task_data"
    unfolding task_result_of_data_def by (cases "py_get d ''task'' (JObj [])") simp_all
  from assms 1 obtain status where 2: "py_get task_data ''status'' (JStr ''unknown'') = Inr status"
    unfolding task_result_of_data_def
    by (cases "py_get task_data ''status'' (JStr ''unknown'')") simp_all
  from assms 1 2 obtain res where 3: "py_get task_data ''result'' (JObj []) = Inr res"
    unfolding task_result_of_data_def
    by (cases "py_get task_data ''result'' (JObj [])") simp_all
  from assms 1 2 3 obtain em where 4: "py_get task_data ''error_message'' JNull = Inr em"
    unfolding task_result_of_data_def
    by (cases "py_get task_data ''error_message'' JNull") simp_all
  show ?thesis
  proof (cases "status = JStr ''completed''")
    case True
    from assms 1 2 3 4 True obtain v where 5: "py_get res ''video_url'' JNull = Inr v"
      unfolding task_result_of_data_def
      by (cases "py_get res ''video_url'' JNull") simp_all
    from assms 1 2 3 4 5 True have "truthy v \<and> res = result"
      unfolding task_result_of_data_def by (simp split: if_splits)
    with 5 show ?thesis by auto
  next
    case False
    from assms 1 2 3 4 False have "status = JStr ''completed''"
      unfolding task_result_of_data_def by (simp split: if_splits)
    with False show ?thesis by simp
  qed
qed

lemma task_result_except_not_completed:
  "task_result_except tid e \<noteq> (JStr ''completed'', result, m)"
  by (cases e) simp_all

lemma get_task_result_completed:
  assumes "get_task_result sj c tid http = (sent, JStr ''completed'', result, m)"
  shows "\<exists>v. py_get result ''video_url'' JNull = Inr v \<and> truthy v"
proof -
  from assms have k: "client_key c \<noteq> []" and t: "tid \<noteq> []"
    by (auto simp: get_task_result_def split: if_splits)
  show ?thesis
  proof (cases http)
    case (Inl e)
    with assms k t show ?thesis
      by (simp add: get_task_result_def task_result_except_not_completed)
  next
    case (Inr r)
    show ?thesis
    proof (cases "status_code r = 200")
      case False
      with assms k t Inr show ?thesis by (simp add: get_task_result_def)
    next
      case True
      show ?thesis
      proof (cases "json_body r")
        case (Inl e)
        with assms k t Inr True show ?thesis
          by (simp add: get_task_result_def task_result_except_not_completed)
      next
        case d: (Inr d)
        show ?thesis
        proof (cases "task_result_of_data sj d")
          case (Inl e)
          with assms k t Inr True d show ?thesis
            by (simp add: get_task_result_def task_result_except_not_completed)
        next
          case tr: (Inr tr)
          with assms k t Inr True d have "task_result_of_data sj d =
              Inr (JStr ''completed'', result, m)"
            by (simp add: get_task_result_def)
          then show ?thesis by (rule task_result_of_data_completed)
        qed
      qed
    qed
  qed
qed

lemma get_task_result_not_sent:
  "get_task_result sj c tid http = (False, status, result, m) \<Longrightarrow> status = JStr ''failed''"
  by (simp add: get_task_result_def split: if_splits)

lemma poll_outcome_cases:
  "poll_outcome (snd (get_task_result sj c tid http)) = ([], False, None) \<or>
   (\<exists>t. is_terminal t \<and> poll_outcome (snd (get_task_result sj c tid http)) = ([t], True, None))"
proof -
  obtain sent status result m where g: "get_task_result sj c tid http = (sent, status, result, m)"
    by (cases "get_task_result sj c tid http") auto
  show ?thesis
  proof (cases "status = JStr ''completed''")
    case True
    with g get_task_result_completed [of sj c tid http sent result m]
    obtain v where "py_get result ''video_url'' JNull = Inr v" "truthy v" by auto
    with g True show ?thesis by (simp add: poll_outcome_def)
  next
    case False
    with g show ?thesis by (simp add: poll_outcome_def)
  qed
qed

lemma poll_outcome_still_running:
  assumes "still_running env w i"
  shows "poll_outcome (snd (get_task_result (str_json env) (api_client w) (task_id w)
      (poll_result env i))) = ([], False, None) \<and>
   poll_actions w (get_task_result (str_json env) (api_client w) (task_id w)
      (poll_result env i)) = iteration env w i"
proof -
  obtain sent status result m where
    g: "get_task_result (str_json env) (api_client w) (task_id w) (poll_result env i) =
        (sent, status, result, m)"
    by (cases "get_task_result (str_json env) (api_client w) (task_id w) (poll_result env i)") auto
  from assms g have s: "status \<noteq> JStr ''completed''" "status \<noteq> JStr ''failed''"
    by (simp_all add: still_running_def)
  with g get_task_result_not_sent [of "str_json env" "api_client w" "task_id w" "poll_result env i"
      status result m] have "sent" by (cases sent) auto
  with g s show ?thesis by (simp add: poll_outcome_def poll_actions_def iteration_def)
qed

lemma poll_actions_no_terminal: "filter is_terminal (poll_actions w q) = []"
  by (simp add: poll_actions_def)

lemma poll_loop_stopped:
  "\<not> observe w (stop_before env) pc \<Longrightarrow> poll_loop env n w pc = ([ReadFlag False], w, pc, None)"
  by (subst poll_loop.simps) simp

lemma poll_loop_exhausted:
  "observe w (stop_before env) pc \<Longrightarrow> \<not> pc < n \<Longrightarrow>
   poll_loop env n w pc = ([ReadFlag True], w, pc, None)"
  by (subst poll_loop.simps) simp

lemma poll_loop_continue:
  "observe w (stop_before env) pc \<Longrightarrow> pc < n \<Longrightarrow>
   poll_outcome (snd (get_task_result (str_json env) (api_client w) (task_id w)
      (poll_result env pc))) = ([], False, None) \<Longrightarrow>
   poll_loop env n w pc =
     (case poll_loop env n w (Suc pc) of
        (rest, w', pc', y) \<Rightarrow>
          (poll_actions w (get_task_result (str_json env) (api_client w) (task_id w)
             (poll_result env pc)) @ rest, w', pc', y))"
  by (subst poll_loop.simps) simp

lemma cleared_not_observed: "\<not> observe (w\<lparr>is_running := False\<rparr>) s i"
  by (simp add: observe_def)

lemma poll_loop_terminal:
  assumes "observe w (stop_before env) pc" and "pc < n"
    and "poll_outcome (snd (get_task_result (str_json env) (api_client w) (task_id w)
      (poll_result env pc))) = ([t], True, None)"
  shows "poll_loop env n w pc =
     (poll_actions w (get_task_result (str_json env) (api_client w) (task_id w)
        (poll_result env pc)) @ [t, ReadFlag False], w\<lparr>is_running := False\<rparr>, Suc pc, None)"
proof -
  have r: "poll_loop env n (w\<lparr>is_running := False\<rparr>) (Suc pc) =
      ([ReadFlag False], w\<lparr>is_running := False\<rparr>, Suc pc, None)"
    by (rule poll_loop_stopped) (rule cleared_not_observed)
  show ?thesis
    by (subst poll_loop.simps) (simp add: assms r)
qed

text \<open>The loop ends in one of two ways: without a terminal signal and with the worker
  untouched, or right after its only terminal signal, with the flag cleared.\<close>

lemma poll_loop_shape:
  "\<exists>acts w' pc' . poll_loop env n w pc = (acts, w', pc', None) \<and>
     ((filter is_terminal acts = [] \<and> w' = w \<and>
       last acts = ReadFlag (observe w (stop_before env) pc') \<and> acts \<noteq> []) \<or>
      (\<exists>pre t. acts = pre @ [t, ReadFlag False] \<and> is_terminal t \<and>
         filter is_terminal pre = [] \<and> \<not> is_running w'))"
proof (induction "n - pc" arbitrary: pc)
  case 0
  then have "\<not> pc < n" by simp
  then show ?case
    by (cases "observe w (stop_before env) pc") (simp_all add: poll_loop_stopped poll_loop_exhausted)
next
  case (Suc d)
  then have lt: "pc < n" by simp
  show ?case
  proof (cases "observe w (stop_before env) pc")
    case False
    then show ?thesis by (simp add: poll_loop_stopped)
  next
    case True
    let ?q = "get_task_result (str_json env) (api_client w) (task_id w) (poll_result env pc)"
    from poll_outcome_cases [of "str_json env" "api_client w" "task_id w" "poll_result env pc"]
    show ?thesis
    proof
      assume c: "poll_outcome (snd ?q) = ([], False, None)"
      from Suc have "d = n - Suc pc" by simp
      from Suc.hyps(1) [OF this] obtain acts w' pc' where
        r: "poll_loop env n w (Suc pc) = (acts, w', pc', None)" and
        s: "(filter is_terminal acts = [] \<and> w' = w \<and>
             last acts = ReadFlag (observe w (stop_before env) pc') \<and> acts \<noteq> []) \<or>
            (\<exists>pre t. acts = pre @ [t, ReadFlag False] \<and> is_terminal t \<and>
               filter is_terminal pre = [] \<and> \<not> is_running w')"
        by blast
      have eq: "poll_loop env n w pc = (poll_actions w ?q @ acts, w', pc', None)"
        using poll_loop_continue [OF True lt c] r by simp
      from s show ?thesis
      proof
        assume "filter is_terminal acts = [] \<and> w' = w \<and>
             last acts = ReadFlag (observe w (stop_before env) pc') \<and> acts \<noteq> []"
        with eq show ?thesis by (simp add: poll_actions_no_terminal)
      next
        assume "\<exists>pre t. acts = pre @ [t, ReadFlag False] \<and> is_terminal t \<and>
               filter is_terminal pre = [] \<and> \<not> is_running w'"
        then obtain pre t where "acts = pre @ [t, ReadFlag False]" "is_terminal t"
          "filter is_terminal pre = []" "\<not> is_running w'" by blast
        with eq have "poll_loop env n w pc =
            ((poll_actions w ?q @ pre) @ [t, ReadFlag False], w', pc', None) \<and> is_terminal t \<and>
            filter is_terminal (poll_actions w ?q @ pre) = [] \<and> \<not> is_running w'"
          by (simp add: poll_actions_no_terminal)
        then show ?thesis by blast
      qed
    next
      assume "\<exists>t. is_terminal t \<and> poll_outcome (snd ?q) = ([t], True, None)"
      then obtain t where t: "is_terminal t" "poll_outcome (snd ?q) = ([t], True, None)" by blast
      from poll_loop_terminal [OF True lt t(2)] t(1) have
        "poll_loop env n w pc =
           (poll_actions w ?q @ [t, ReadFlag False], w\<lparr>is_running := False\<rparr>, Suc pc, None) \<and>
         is_terminal t \<and> filter is_terminal (poll_actions w ?q) = [] \<and>
         \<not> is_running (w\<lparr>is_running := False\<rparr>)"
        by (simp add: poll_actions_no_terminal)
      then show ?thesis by blast
    qed
  qed
qed

text \<open>While the task stays unfinished and the flag is seen set, the loop repeats the same
  four effects, up to the bound or up to the loop test that sees the flag cleared.\<close>

lemma poll_loop_quiet:
  assumes "is_running w" and "pc \<le> m" and "m \<le> n"
    and "\<forall>i. pc \<le> i \<and> i < m \<longrightarrow> still_running env w i \<and> observe w (stop_before env) i"
    and "m < n \<longrightarrow> \<not> observe w (stop_before env) m"
  shows "poll_loop env n w pc =
           (concat (map (iteration env w) [pc..<m]) @ [ReadFlag (observe w (stop_before env) m)],
            w, m, None)"
  using assms(2,4)
proof (induction "m - pc" arbitrary: pc)
  case 0
  then have e: "pc = m" by simp
  show ?case
  proof (cases "observe w (stop_before env) m")
    case False
    with e show ?thesis by (simp add: poll_loop_stopped)
  next
    case True
    with assms(3,5) have "\<not> m < n" by auto
    with True e show ?thesis by (simp add: poll_loop_exhausted)
  qed
next
  case (Suc d)
  then have lt: "pc < m" by simp
  with Suc.prems have q: "still_running env w pc" and o: "observe w (stop_before env) pc" by auto
  from lt assms(3) have ltn: "pc < n" by simp
  note po = poll_outcome_still_running [OF q]
  from Suc.hyps(2) have d: "d = m - Suc pc" by simp
  from lt have le: "Suc pc \<le> m" by simp
  have ih: "poll_loop env n w (Suc pc) =
      (concat (map (iteration env w) [Suc pc..<m]) @ [ReadFlag (observe w (stop_before env) m)],
       w, m, None)"
    using Suc.hyps(1) [OF d le] Suc.prems(2) by simp
  have up: "[pc..<m] = pc # [Suc pc..<m]" using lt by (simp add: upt_conv_Cons)
  show ?case
    using poll_loop_continue [OF o ltn conjunct1 [OF po]] ih po
    by (simp add: up)
qed

lemma checked_poll_actions:
  "checked_from s (poll_actions w q @ rest) = checked_from Idle rest"
  by (simp add: poll_actions_def)

lemma checked_terminal:
  "is_terminal t \<Longrightarrow> checked_from s (t # rest) = checked_from Idle rest"
  by (cases t) simp_all

lemma poll_loop_checked:
  "checked_from s (fst (poll_loop env n w pc) @ ReadFlag b # rest) =
   checked_from (if b then Checked else Idle) rest"
proof (induction "n - pc" arbitrary: pc w s)
  case 0
  then have "\<not> pc < n" by simp
  then show ?case
    by (cases "observe w (stop_before env) pc") (simp_all add: poll_loop_stopped poll_loop_exhausted)
next
  case (Suc d)
  then have lt: "pc < n" by simp
  show ?case
  proof (cases "observe w (stop_before env) pc")
    case False
    then show ?thesis by (simp add: poll_loop_stopped)
  next
    case True
    let ?q = "get_task_result (str_json env) (api_client w) (task_id w) (poll_result env pc)"
    from poll_outcome_cases [of "str_json env" "api_client w" "task_id w" "poll_result env pc"]
    show ?thesis
    proof
      assume c: "poll_outcome (snd ?q) = ([], False, None)"
      from Suc have "d = n - Suc pc" by simp
      from Suc.hyps(1) [OF this, of Idle w]
      have ih: "checked_from Idle (fst (poll_loop env n w (Suc pc)) @ ReadFlag b # rest) =
          checked_from (if b then Checked else Idle) rest" .
      obtain acts w' pc' y where r: "poll_loop env n w (Suc pc) = (acts, w', pc', y)"
        by (cases "poll_loop env n w (Suc pc)") auto
      from poll_loop_continue [OF True lt c] r ih show ?thesis
        by (simp add: checked_poll_actions)
    next
      assume "\<exists>t. is_terminal t \<and> poll_outcome (snd ?q) = ([t], True, None)"
      then obtain t where t: "is_terminal t" "poll_outcome (snd ?q) = ([t], True, None)" by blast
      from poll_loop_terminal [OF True lt t(2)] t(1) show ?thesis
        by (cases t) (simp_all add: checked_poll_actions)
    qed
  qed
qed

lemma run_polling_checked: "checked_before_wait_and_query (fst (run_polling n w env))"
proof -
  obtain acts w' pc x where p: "poll_loop env n w 0 = (acts, w', pc, x)"
    by (cases "poll_loop env n w 0") auto
  from poll_loop_shape [of env n w 0] p have x: "x = None" by auto
  from poll_loop_checked [of Idle env n w 0] p
  have c: "\<And>b rest. checked_from Idle (acts @ ReadFlag b # rest) =
      checked_from (if b then Checked else Idle) rest" by simp
  from p x c show ?thesis
    by (simp add: run_polling_def checked_before_wait_and_query_def Let_def)
qed

lemma iterations_queries:
  "length (filter is_query (concat (map (iteration env w) xs))) = length xs"
  by (induction xs) (simp_all add: iteration_def)

lemma iterations_no_terminal:
  "filter is_terminal (concat (map (iteration env w) xs)) = []"
  by (induction xs) (simp_all add: iteration_def)

lemma run_polling_quiet:
  assumes "is_running w" and "m \<le> n"
    and "\<forall>i. i < m \<longrightarrow> still_running env w i \<and> observe w (stop_before env) i"
    and "m < n \<longrightarrow> \<not> observe w (stop_before env) m"
  shows "run_polling n w env =
     (StatusUpdated (''Iniciando monitoreo de tarea: '' @ task_id w) #
      concat (map (iteration env w) [0..<m]) @
      [ReadFlag (observe w (stop_before env) m), ReadFlag (observe w (stop_before env) (Suc m))] @
      (if observe w (stop_before env) (Suc m) then [TaskFailed (timed_out (task_id w))] else []),
      w\<lparr>is_running := observe w (stop_before env) (Suc m)\<rparr>, None)"
proof -
  have "poll_loop env n w 0 =
      (concat (map (iteration env w) [0..<m]) @ [ReadFlag (observe w (stop_before env) m)],
       w, m, None)"
    using assms by (intro poll_loop_quiet) simp_all
  then show ?thesis by (simp add: run_polling_def Let_def)
qed

lemma task_result_except_prefix:
  "take 2 (snd (snd (task_result_except tid e))) = ''Er'' \<or>
   take 2 (snd (snd (task_result_except tid e))) = ''Oc''"
  by (cases e) simp_all

lemma task_result_of_data_prefix:
  assumes "task_result_of_data sj d = Inr (s, r, m)"
  shows "take 2 m = ''Ta'' \<or> take 2 m = ''Es''"
proof -
  from assms obtain task_data where 1: "py_get d ''task'' (JObj []) = Inr task_data"
    unfolding task_result_of_data_def by (cases "py_get d ''task'' (JObj [])") simp_all
  from assms 1 obtain status where 2: "py_get task_data ''status'' (JStr ''unknown'') = Inr status"
    unfolding task_result_of_data_def
    by (cases "py_get task_data ''status'' (JStr ''unknown'')") simp_all
  from assms 1 2 obtain res where 3: "py_get task_data ''result'' (JObj []) = Inr res"
    unfolding task_result_of_data_def
    by (cases "py_get task_data ''result'' (JObj [])") simp_all
  from assms 1 2 3 obtain em where 4: "py_get task_data ''error_message'' JNull = Inr em"
    unfolding task_result_of_data_def
    by (cases "py_get task_data ''error_message'' JNull") simp_all
  show ?thesis
  proof (cases "status = JStr ''completed''")
    case True
    from assms 1 2 3 4 True obtain v where 5: "py_get res ''video_url'' JNull = Inr v"
      unfolding task_result_of_data_def
      by (cases "py_get res ''video_url'' JNull") simp_all
    from assms 1 2 3 4 5 True show ?thesis
      unfolding task_result_of_data_def by (auto split: if_splits)
  next
    case False
    from assms 1 2 3 4 False show ?thesis
      unfolding task_result_of_data_def by (auto split: if_splits)
  qed
qed

lemma get_task_result_prefix:
  "take 2 (snd (snd (snd (get_task_result sj c tid http)))) \<in>
     {''AP'', ''Ta'', ''Er'', ''Oc'', ''Es''}"
proof (cases "client_key c = [] \<or> tid = []")
  case True
  then show ?thesis by (auto simp: get_task_result_def)
next
  case False
  then have k: "client_key c \<noteq> []" "tid \<noteq> []" by simp_all
  show ?thesis
  proof (cases http)
    case (Inl e)
    with k task_result_except_prefix [of tid e] show ?thesis
      by (auto simp: get_task_result_def)
  next
    case (Inr r)
    show ?thesis
    proof (cases "status_code r = 200")
      case False
      with k Inr show ?thesis by (simp add: get_task_result_def)
    next
      case True
      show ?thesis
      proof (cases "json_body r")
        case (Inl e)
        with k Inr True task_result_except_prefix [of tid e] show ?thesis
          by (auto simp: get_task_result_def)
      next
        case d: (Inr d)
        show ?thesis
        proof (cases "task_result_of_data sj d")
          case (Inl e)
          with k Inr True d task_result_except_prefix [of tid e] show ?thesis
            by (auto simp: get_task_result_def)
        next
          case tr: (Inr tr)
          obtain s r' m where "tr = (s, r', m)" by (cases tr) auto
          with k Inr True d tr task_result_of_data_prefix [of sj d s r' m] show ?thesis
            by (auto simp: get_task_result_def)
        qed
      qed
    qed
  qed
qed

lemma timed_out_prefix: "take 2 (timed_out tid) = ''Ti''"
  by (simp add: timed_out_def)

lemma timed_out_is_no_query_message:
  "snd (snd (snd (get_task_result sj c tid http))) \<noteq> timed_out t"
proof
  assume "snd (snd (snd (get_task_result sj c tid http))) = timed_out t"
  then have "take 2 (snd (snd (snd (get_task_result sj c tid http)))) = ''Ti''"
    by (simp add: timed_out_prefix)
  with get_task_result_prefix [of sj c tid http] show False by simp
qed

lemma timed_out_is_not_missing_url: "timed_out t \<noteq> completed_without_url"
proof
  assume "timed_out t = completed_without_url"
  then have "take 2 (timed_out t) = take 2 completed_without_url" by simp
  then show False by (simp add: timed_out_prefix completed_without_url_def)
qed

lemma effects_snoc_terminal: "is_terminal t \<Longrightarrow> effects (xs @ [t]) = effects xs @ [t]"
  by (cases t) (simp_all add: effects_def)

lemma effects_snoc_read: "effects (xs @ [ReadFlag b]) = effects xs"
  by (simp add: effects_def)

text \<open>Every run of the polling worker, in one of three shapes.\<close>

lemma run_polling_shape:
  "snd (snd (run_polling n w env)) = None \<and>
   ((\<exists>pre. fst (run_polling n w env) = pre @ [ReadFlag False] \<and> filter is_terminal pre = [] \<and>
       \<not> is_running (fst (snd (run_polling n w env))) \<and>
       \<not> (is_running w \<and> stop_before env = None)) \<or>
    (\<exists>pre. fst (run_polling n w env) = pre @ [TaskFailed (timed_out (task_id w))] \<and>
       filter is_terminal pre = [] \<and> is_running w) \<or>
    (\<exists>pre t. fst (run_polling n w env) = pre @ [t, ReadFlag False, ReadFlag False] \<and>
       is_terminal t \<and> filter is_terminal pre = [] \<and>
       \<not> is_running (fst (snd (run_polling n w env)))))"
proof -
  from poll_loop_shape [of env n w 0] obtain acts w' pc' where
    p: "poll_loop env n w 0 = (acts, w', pc', None)" and
    s: "(filter is_terminal acts = [] \<and> w' = w \<and>
         last acts = ReadFlag (observe w (stop_before env) pc') \<and> acts \<noteq> []) \<or>
        (\<exists>pre t. acts = pre @ [t, ReadFlag False] \<and> is_terminal t \<and>
           filter is_terminal pre = [] \<and> \<not> is_running w')"
    by blast
  let ?init = "StatusUpdated (''Iniciando monitoreo de tarea: '' @ task_id w)"
  let ?b = "observe w' (stop_before env) (Suc pc')"
  from p have r: "run_polling n w env =
      (?init # acts @ [ReadFlag ?b] @ (if ?b then [TaskFailed (timed_out (task_id w))] else []),
       w'\<lparr>is_running := ?b\<rparr>, None)"
    by (simp add: run_polling_def Let_def)
  then have x: "snd (snd (run_polling n w env)) = None" by simp
  from s show ?thesis
  proof
    assume a: "filter is_terminal acts = [] \<and> w' = w \<and>
         last acts = ReadFlag (observe w (stop_before env) pc') \<and> acts \<noteq> []"
    show ?thesis
    proof (cases ?b)
      case True
      with a have "is_running w" by (simp add: observe_def)
      moreover from True r have "fst (run_polling n w env) =
          (?init # acts @ [ReadFlag True]) @ [TaskFailed (timed_out (task_id w))]" by simp
      moreover from a have "filter is_terminal (?init # acts @ [ReadFlag True]) = []" by simp
      ultimately show ?thesis using x by blast
    next
      case False
      with a have n: "\<not> (is_running w \<and> stop_before env = None)"
        by (auto simp: observe_def split: option.splits)
      from False r have "fst (run_polling n w env) = (?init # acts) @ [ReadFlag False]" by simp
      moreover from a have "filter is_terminal (?init # acts) = []" by simp
      moreover from False r have "\<not> is_running (fst (snd (run_polling n w env)))" by simp
      ultimately show ?thesis using x n by blast
    qed
  next
    assume "\<exists>pre t. acts = pre @ [t, ReadFlag False] \<and> is_terminal t \<and>
           filter is_terminal pre = [] \<and> \<not> is_running w'"
    then obtain pre t where a: "acts = pre @ [t, ReadFlag False]" "is_terminal t"
      "filter is_terminal pre = []" "\<not> is_running w'" by blast
    then have b: "\<not> ?b" by (simp add: observe_def)
    with r a have "fst (run_polling n w env) = (?init # pre) @ [t, ReadFlag False, ReadFlag False]"
      by simp
    moreover from a have "filter is_terminal (?init # pre) = []" by simp
    moreover from b r have "\<not> is_running (fst (snd (run_polling n w env)))" by simp
    ultimately show ?thesis using x a(2) by blast
  qed
qed

lemma run_polling_terminals:
  "snd (snd (run_polling n w env)) = None \<and>
   length (filter is_terminal (fst (run_polling n w env))) \<le> 1 \<and>
   (filter is_terminal (fst (run_polling n w env)) \<noteq> [] \<longrightarrow>
      is_terminal (last (effects (fst (run_polling n w env))))) \<and>
   (is_running w \<and> stop_before env = None \<longrightarrow>
      length (filter is_terminal (fst (run_polling n w env))) = 1)"
proof -
  from run_polling_shape [of n w env] have x: "snd (snd (run_polling n w env)) = None" by simp
  from run_polling_shape [of n w env] consider
    (stopped) pre where "fst (run_polling n w env) = pre @ [ReadFlag False]"
      "filter is_terminal pre = []" "\<not> (is_running w \<and> stop_before env = None)"
  | (timeout) pre where "fst (run_polling n w env) = pre @ [TaskFailed (timed_out (task_id w))]"
      "filter is_terminal pre = []"
  | (terminal) pre t where "fst (run_polling n w env) = pre @ [t, ReadFlag False, ReadFlag False]"
      "is_terminal t" "filter is_terminal pre = []"
    by blast
  then show ?thesis
  proof cases
    case stopped
    with x show ?thesis by simp
  next
    case timeout
    with x show ?thesis by (simp add: effects_def)
  next
    case terminal
    have "effects (pre @ [t, ReadFlag False, ReadFlag False]) = effects pre @ [t]"
      using terminal(2) by (cases t) (simp_all add: effects_def)
    with terminal x show ?thesis by simp
  qed
qed

lemma run_polling_flag: "is_running (fst (snd (run_polling n w env))) \<Longrightarrow> is_running w"
  using run_polling_shape [of n w env] by blast

section \<open>Properties of the download loop and of the audio workers\<close>

lemma download_outcome:
  "download w env es err i t cs = (acts, ex) \<Longrightarrow>
   (ex = Returned \<longrightarrow> single_outcome acts \<and> (\<forall>a \<in> set acts. \<not> is_success a)) \<and>
   (ex \<noteq> Returned \<longrightarrow> no_finished acts)"
proof (induction cs arbitrary: i t acts ex)
  case Nil
  then show ?case by (auto split: option.splits)
next
  case (Cons c cs)
  show ?case
  proof (cases "observe w (stop_before env) (2 + i)")
    case False
    with Cons.prems show ?thesis by auto
  next
    case obs: True
    show ?thesis
    proof (cases "c = []")
      case True
      with obs Cons.prems have "download w env es err (Suc i) t cs = (acts, ex)" by simp
      then show ?thesis by (rule Cons.IH)
    next
      case ne: False
      show ?thesis
      proof (cases "write_error env i")
        case (Some m)
        with obs ne Cons.prems show ?thesis by auto
      next
        case wr: None
        show ?thesis
        proof (cases "chunk_progress es i (t + length c)")
          case (Inl e)
          with obs ne wr Cons.prems show ?thesis by auto
        next
          case (Inr p)
          obtain a2 e2 where d: "download w env es err (Suc i) (t + length c) cs = (a2, e2)"
            by (cases "download w env es err (Suc i) (t + length c) cs")
          from Cons.IH [OF d] have ih:
            "(e2 = Returned \<longrightarrow> single_outcome a2 \<and> (\<forall>a \<in> set a2. \<not> is_success a)) \<and>
             (e2 \<noteq> Returned \<longrightarrow> no_finished a2)" .
          from obs ne wr Inr d Cons.prems
          have eq: "acts = WriteChunk c # EmitProgress p # a2" "ex = e2"
            by simp_all
          have so: "single_outcome a2 \<Longrightarrow> single_outcome (WriteChunk c # EmitProgress p # a2)"
            by (intro single_outcome_Cons) simp_all
          from ih eq so show ?thesis by auto
        qed
      qed
    qed
  qed
qed

lemma download_no_success:
  assumes "download w env es err i t cs = (acts, ex)" and "a \<in> set acts"
  shows "\<not> is_success a"
proof (cases "ex = Returned")
  case True
  with download_outcome [OF assms(1)] assms(2) show ?thesis by blast
next
  case False
  with download_outcome [OF assms(1)] have "no_finished acts" by blast
  then show ?thesis using assms(2) by (rule no_success_no_finished)
qed

lemma download_total:
  "download w env es err i t cs = (acts, StreamEnd n) \<Longrightarrow>
   n = t + sum_list (map length cs)"
proof (induction cs arbitrary: i t acts)
  case Nil
  then show ?case by (auto split: option.splits)
next
  case (Cons c cs)
  show ?case
  proof (cases "observe w (stop_before env) (2 + i)")
    case False
    with Cons.prems show ?thesis by auto
  next
    case obs: True
    show ?thesis
    proof (cases "c = []")
      case True
      with obs Cons.prems have "download w env es err (Suc i) t cs = (acts, StreamEnd n)" by simp
      from Cons.IH [OF this] True show ?thesis by simp
    next
      case ne: False
      show ?thesis
      proof (cases "write_error env i")
        case (Some m)
        with obs ne Cons.prems show ?thesis by auto
      next
        case wr: None
        show ?thesis
        proof (cases "chunk_progress es i (t + length c)")
          case (Inl e)
          with obs ne wr Cons.prems show ?thesis by auto
        next
          case (Inr p)
          obtain a2 e2 where d: "download w env es err (Suc i) (t + length c) cs = (a2, e2)"
            by (cases "download w env es err (Suc i) (t + length c) cs")
          from obs ne wr Inr d Cons.prems have "e2 = StreamEnd n" by simp
          with d Cons.IH [of "Suc i" "t + length c" a2] show ?thesis by simp
        qed
      qed
    qed
  qed
qed

lemma download_progress:
  assumes "0 < l" and "int t + int (sum_list (map length cs)) \<le> l"
  shows "(\<forall>p \<in> set (progress_values (fst (download w env (Some l) err i t cs))).
            the_percent (int t) l \<le> p \<and> p \<le> 100) \<and>
         sorted (progress_values (fst (download w env (Some l) err i t cs))) \<and>
         (\<forall>n. snd (download w env (Some l) err i t cs) = StreamEnd n \<longrightarrow>
            progress_values (fst (download w env (Some l) err i t cs)) =
            map (\<lambda>k. the_percent (int k) l) (running_totals t cs))"
  using assms(2)
proof (induction cs arbitrary: i t)
  case Nil
  then show ?case by (auto split: option.splits)
next
  case (Cons c cs)
  show ?case
  proof (cases "observe w (stop_before env) (2 + i)")
    case False
    then show ?thesis by simp
  next
    case obs: True
    show ?thesis
    proof (cases "c = []")
      case True
      with obs Cons.prems Cons.IH [of t "Suc i"] show ?thesis by simp
    next
      case ne: False
      show ?thesis
      proof (cases "write_error env i")
        case (Some m)
        with obs ne show ?thesis by simp
      next
        case wr: None
        let ?t = "t + length c"
        from Cons.prems have b: "int ?t + int (sum_list (map length cs)) \<le> l" by simp
        then have tl: "int ?t \<le> l" by linarith
        have pe: "chunk_progress (Some l) i ?t = Inr (the_percent (int ?t) l)"
          using assms(1) tl by (simp add: chunk_progress_def progress_percent_eq)
        obtain a2 e2 where d: "download w env (Some l) err (Suc i) ?t cs = (a2, e2)"
          by (cases "download w env (Some l) err (Suc i) ?t cs")
        from Cons.IH [OF b, of "Suc i"] d have ih:
          "(\<forall>p \<in> set (progress_values a2). the_percent (int ?t) l \<le> p \<and> p \<le> 100) \<and>
           sorted (progress_values a2) \<and>
           (\<forall>n. e2 = StreamEnd n \<longrightarrow>
              progress_values a2 = map (\<lambda>k. the_percent (int k) l) (running_totals ?t cs))"
          by simp
        have dl: "download w env (Some l) err i t (c # cs) =
            (WriteChunk c # EmitProgress (the_percent (int ?t) l) # a2, e2)"
          using obs ne wr pe d by simp
        have m: "the_percent (int t) l \<le> the_percent (int ?t) l"
          using assms(1) by (intro the_percent_mono) simp_all
        have r: "the_percent (int ?t) l \<le> 100"
          using the_percent_range [of "int ?t" l] tl assms(1) by simp
        from ih m r ne show ?thesis unfolding dl by auto
      qed
    qed
  qed
qed

lemma AudioGenerator_open_quiet:
  "AudioGenerator_open env = (a1, x, tf) \<Longrightarrow>
   no_finished a1 \<and> progress_values a1 = [] \<and> (\<forall>a \<in> set a1. \<not> is_http a)"
  by (auto simp: AudioGenerator_open_def split: option.splits if_splits)

text \<open>The block that holds the file open, with and without a failing close.\<close>

lemma with_open_closed:
  "close_error env = None \<Longrightarrow> (\<forall>m. content_length r \<noteq> BadLength m) \<Longrightarrow>
   AudioGenerator_with_open w env r =
     download w env (expected_size r) (stream_error r) 0 0 (chunks r)"
  by (cases "content_length r") (simp_all add: AudioGenerator_with_open_def split: prod.splits)

lemma with_open_cases:
  assumes "AudioGenerator_with_open w env r = (acts, ex)"
  shows "(\<exists>m. acts = [] \<and> ex = Raised (OtherException m)) \<or>
         (\<exists>ex0. download w env (expected_size r) (stream_error r) 0 0 (chunks r) = (acts, ex0) \<and>
            (\<forall>m. content_length r \<noteq> BadLength m) \<and>
            ((close_error env = None \<and> ex = ex0) \<or>
             (\<exists>m. close_error env = Some m \<and> ex = Raised (OtherException m))))"
proof (cases "\<exists>m. content_length r = BadLength m")
  case True
  with assms show ?thesis
    by (cases "close_error env") (auto simp: AudioGenerator_with_open_def)
next
  case False
  obtain a0 ex0 where d: "download w env (expected_size r) (stream_error r) 0 0 (chunks r) = (a0, ex0)"
    by (cases "download w env (expected_size r) (stream_error r) 0 0 (chunks r)")
  from False assms d show ?thesis
    by (cases "content_length r"; cases "close_error env")
       (auto simp: AudioGenerator_with_open_def)
qed

lemma with_open_outcome:
  assumes "AudioGenerator_with_open w env r = (acts, ex)"
  shows "(ex = Returned \<longrightarrow> single_outcome acts) \<and>
         (ex \<noteq> Returned \<longrightarrow> no_finished acts \<or> (close_error env \<noteq> None \<and> single_outcome acts)) \<and>
         (\<forall>a \<in> set acts. \<not> is_success a)"
proof -
  from with_open_cases [OF assms] show ?thesis
  proof
    assume "\<exists>m. acts = [] \<and> ex = Raised (OtherException m)"
    then show ?thesis by auto
  next
    assume "\<exists>ex0. download w env (expected_size r) (stream_error r) 0 0 (chunks r) = (acts, ex0) \<and>
            (\<forall>m. content_length r \<noteq> BadLength m) \<and>
            ((close_error env = None \<and> ex = ex0) \<or>
             (\<exists>m. close_error env = Some m \<and> ex = Raised (OtherException m)))"
    then obtain ex0 where d: "download w env (expected_size r) (stream_error r) 0 0 (chunks r) =
        (acts, ex0)"
      and c: "(close_error env = None \<and> ex = ex0) \<or>
             (\<exists>m. close_error env = Some m \<and> ex = Raised (OtherException m))" by blast
    note o = download_outcome [OF d]
    have ns: "\<forall>a \<in> set acts. \<not> is_success a" using download_no_success [OF d] by blast
    from c show ?thesis
    proof
      assume "close_error env = None \<and> ex = ex0"
      with o ns show ?thesis by auto
    next
      assume "\<exists>m. close_error env = Some m \<and> ex = Raised (OtherException m)"
      with o ns show ?thesis by (cases "ex0 = Returned") auto
    qed
  qed
qed

lemma with_open_StreamEnd:
  assumes "AudioGenerator_with_open w env r = (acts, StreamEnd n)"
  shows "download w env (expected_size r) (stream_error r) 0 0 (chunks r) = (acts, StreamEnd n) \<and>
         no_finished acts \<and> close_error env = None"
proof -
  from with_open_cases [OF assms] obtain ex0 where
    d: "download w env (expected_size r) (stream_error r) 0 0 (chunks r) = (acts, ex0)" and
    c: "close_error env = None \<and> StreamEnd n = ex0" by auto
  with download_outcome [OF d] show ?thesis by auto
qed

lemma with_open_Returned:
  "AudioGenerator_with_open w env r = (acts, Returned) \<Longrightarrow> single_outcome acts"
  using with_open_outcome by blast

lemma with_open_Raised:
  "AudioGenerator_with_open w env r = (acts, Raised e) \<Longrightarrow>
   no_finished acts \<or> (close_error env \<noteq> None \<and> single_outcome acts)"
  using with_open_outcome [of w env r acts "Raised e"] by simp

lemma with_open_no_success:
  "AudioGenerator_with_open w env r = (acts, ex) \<Longrightarrow> a \<in> set acts \<Longrightarrow> \<not> is_success a"
  using with_open_outcome by blast

lemma AudioGenerator_save_outcome:
  assumes "AudioGenerator_save w env r = (acts, x)"
  shows "(x = None \<longrightarrow> single_outcome acts) \<and>
         (x \<noteq> None \<longrightarrow> no_finished acts \<or> (close_error env \<noteq> None \<and> single_outcome acts))"
proof -
  obtain a0 ex where wo: "AudioGenerator_with_open w env r = (a0, ex)"
    by (cases "AudioGenerator_with_open w env r")
  show ?thesis
  proof (cases ex)
    case (StreamEnd n)
    with with_open_StreamEnd [of w env r a0 n] wo have nf: "no_finished a0" by simp
    have "single_outcome ((a0 @ [EmitProgress 100]) @ [EmitFinished (temp_file env) True ''''])"
      using nf by (simp only: single_outcome_snoc) simp
    with assms wo StreamEnd nf show ?thesis
      by (auto simp: AudioGenerator_save_def split: if_splits)
  next
    case Returned
    with with_open_Returned [of w env r a0] wo assms show ?thesis
      by (auto simp: AudioGenerator_save_def)
  next
    case (Raised e)
    with with_open_Raised [of w env r a0 e] wo assms show ?thesis
      by (auto simp: AudioGenerator_save_def)
  qed
qed

lemma AudioGenerator_try_outcome:
  assumes "AudioGenerator_try w env = (acts, x, tf)"
  shows "(x = None \<longrightarrow> single_outcome acts) \<and>
         (x \<noteq> None \<longrightarrow> no_finished acts \<or> (close_error env \<noteq> None \<and> single_outcome acts))"
proof (cases "post_result env")
  case (Inl e)
  with assms show ?thesis by (auto simp: AudioGenerator_try_def)
next
  case (Inr r)
  show ?thesis
  proof (cases "observe w (stop_before env) 1 \<and> status_code r = 200")
    case False
    with assms Inr show ?thesis
      by (auto simp: AudioGenerator_try_def single_outcome_def split: if_splits)
  next
    case True
    obtain a1 y tf1 where op: "AudioGenerator_open env = (a1, y, tf1)"
      by (cases "AudioGenerator_open env") auto
    note q = AudioGenerator_open_quiet [OF op]
    show ?thesis
    proof (cases y)
      case (Some e)
      with assms Inr True op q show ?thesis by (auto simp: AudioGenerator_try_def)
    next
      case None
      obtain a2 z where sv: "AudioGenerator_save w env r = (a2, z)"
        by (cases "AudioGenerator_save w env r")
      note so = AudioGenerator_save_outcome [OF sv]
      from assms Inr True op None sv have eq:
        "acts = (HttpRequest ''POST'' (stream_url w) # a1) @ a2" "x = z"
        by (auto simp: AudioGenerator_try_def)
      have pre: "no_finished (HttpRequest ''POST'' (stream_url w) # a1)" using q by simp
      have lift: "single_outcome a2 \<Longrightarrow> single_outcome acts"
        unfolding eq(1) using pre by (rule single_outcome_prepend)
      show ?thesis
      proof (cases z)
        case None
        with so lift eq show ?thesis by simp
      next
        case (Some e)
        with so pre eq lift show ?thesis by auto
      qed
    qed
  qed
qed

lemma AudioGenerator_except_Some:
  "x \<noteq> None \<Longrightarrow> \<exists>p m. AudioGenerator_except env tf x = [EmitFinished p False m]"
  by (cases "(env, tf, x)" rule: AudioGenerator_except.cases) auto

lemma AudioGenerator_run_single_outcome:
  assumes "close_error env = None"
  shows "single_outcome (fst (AudioGenerator_run w env))"
proof (cases "observe w (stop_before env) 0")
  case False
  then show ?thesis by (simp add: AudioGenerator_run_def)
next
  case True
  obtain acts x tf where t: "AudioGenerator_try w env = (acts, x, tf)"
    by (cases "AudioGenerator_try w env") auto
  note o = AudioGenerator_try_outcome [OF t]
  show ?thesis
  proof (cases x)
    case None
    with True t o show ?thesis by (simp add: AudioGenerator_run_def)
  next
    case (Some e)
    then obtain p m where "AudioGenerator_except env tf x = [EmitFinished p False m]"
      using AudioGenerator_except_Some [of x env tf] by auto
    with True t o Some assms show ?thesis by (simp add: AudioGenerator_run_def)
  qed
qed

lemma single_outcome_ends: "single_outcome acts \<Longrightarrow> acts \<noteq> [] \<and> is_finished (last acts)"
  by (simp add: single_outcome_def)

lemma AudioGenerator_run_ends_finished:
  "fst (AudioGenerator_run w env) \<noteq> [] \<and> is_finished (last (fst (AudioGenerator_run w env)))"
proof (cases "observe w (stop_before env) 0")
  case False
  then show ?thesis by (simp add: AudioGenerator_run_def)
next
  case True
  obtain acts x tf where t: "AudioGenerator_try w env = (acts, x, tf)"
    by (cases "AudioGenerator_try w env") auto
  note o = AudioGenerator_try_outcome [OF t]
  show ?thesis
  proof (cases x)
    case None
    with True t o show ?thesis by (simp add: AudioGenerator_run_def single_outcome_ends)
  next
    case (Some e)
    then obtain p m where "AudioGenerator_except env tf x = [EmitFinished p False m]"
      using AudioGenerator_except_Some [of x env tf] by auto
    with True t show ?thesis by (simp add: AudioGenerator_run_def)
  qed
qed


lemma ApiWorker_try_outcome:
  assumes "ApiWorker_try w env = (acts, x)"
  shows "(x = None \<longrightarrow> single_outcome acts) \<and> (x \<noteq> None \<longrightarrow> no_finished acts)"
  using assms
  by (auto simp: ApiWorker_try_def ApiWorker_request_def ApiWorker_deliver_def single_outcome_def
      split: if_splits sum.splits option.splits prod.splits)

lemma ApiWorker_except_Some:
  "x \<noteq> None \<Longrightarrow> \<exists>m. ApiWorker_except x = [EmitFinished PNone False m]"
  by (cases x rule: ApiWorker_except.cases) auto

lemma ApiWorker_run_single_outcome: "single_outcome (fst (ApiWorker_run w env))"
proof (cases "observe w (stop_before env) 0")
  case False
  then show ?thesis by (simp add: ApiWorker_run_def)
next
  case True
  obtain acts x where t: "ApiWorker_try w env = (acts, x)"
    by (cases "ApiWorker_try w env") auto
  note o = ApiWorker_try_outcome [OF t]
  show ?thesis
  proof (cases x)
    case None
    with True t o show ?thesis by (simp add: ApiWorker_run_def)
  next
    case (Some e)
    then obtain m where "ApiWorker_except x = [EmitFinished PNone False m]"
      using ApiWorker_except_Some [of x] by auto
    with True t o Some show ?thesis by (simp add: ApiWorker_run_def)
  qed
qed

text \<open>Where a success of the download worker comes from.\<close>

lemma AudioGenerator_save_success:
  assumes "AudioGenerator_save w env r = (acts, x)" and "a \<in> set acts" and "is_success a"
  shows "\<exists>a0 n. download w env (expected_size r) (stream_error r) 0 0 (chunks r) =
           (a0, StreamEnd n) \<and> n \<noteq> 0 \<and> x = None \<and>
           acts = a0 @ [EmitProgress 100, EmitFinished (temp_file env) True []]"
proof -
  obtain a0 ex where wo: "AudioGenerator_with_open w env r = (a0, ex)"
    by (cases "AudioGenerator_with_open w env r")
  have ns: "\<And>b. b \<in> set a0 \<Longrightarrow> \<not> is_success b"
    using with_open_no_success [OF wo] by blast
  show ?thesis
  proof (cases ex)
    case (StreamEnd n)
    with with_open_StreamEnd [of w env r a0 n] wo
    have d: "download w env (expected_size r) (stream_error r) 0 0 (chunks r) = (a0, StreamEnd n)"
      by simp
    show ?thesis
    proof (cases "n = 0")
      case True
      with assms wo StreamEnd ns show ?thesis by (auto simp: AudioGenerator_save_def)
    next
      case False
      with assms(1) wo StreamEnd d show ?thesis by (auto simp: AudioGenerator_save_def)
    qed
  next
    case Returned
    with assms wo ns show ?thesis by (auto simp: AudioGenerator_save_def)
  next
    case (Raised e)
    with assms wo ns show ?thesis by (auto simp: AudioGenerator_save_def)
  qed
qed

lemma AudioGenerator_except_no_success:
  "a \<in> set (AudioGenerator_except env tf x) \<Longrightarrow> \<not> is_success a"
  by (cases "(env, tf, x)" rule: AudioGenerator_except.cases) auto

lemma AudioGenerator_run_success:
  assumes "a \<in> set (fst (AudioGenerator_run w env))" and "is_success a"
  shows "\<exists>r a0 n. post_result env = Inr r \<and> status_code r = 200 \<and>
           download w env (expected_size r) (stream_error r) 0 0 (chunks r) = (a0, StreamEnd n) \<and>
           n \<noteq> 0 \<and>
           progress_values (fst (AudioGenerator_run w env)) = progress_values a0 @ [100]"
proof (cases "observe w (stop_before env) 0")
  case False
  with assms show ?thesis by (simp add: AudioGenerator_run_def)
next
  case o0: True
  obtain acts x tf where t: "AudioGenerator_try w env = (acts, x, tf)"
    by (cases "AudioGenerator_try w env") auto
  from o0 t have run: "fst (AudioGenerator_run w env) = acts @ AudioGenerator_except env tf x"
    by (simp add: AudioGenerator_run_def)
  with assms have ain: "a \<in> set acts" using AudioGenerator_except_no_success by auto
  show ?thesis
  proof (cases "post_result env")
    case (Inl e)
    with t ain assms(2) show ?thesis by (auto simp: AudioGenerator_try_def)
  next
    case (Inr r)
    show ?thesis
    proof (cases "observe w (stop_before env) 1 \<and> status_code r = 200")
      case False
      with t Inr ain assms(2) show ?thesis
        by (auto simp: AudioGenerator_try_def split: if_splits)
    next
      case True
      obtain a1 y tf1 where op: "AudioGenerator_open env = (a1, y, tf1)"
        by (cases "AudioGenerator_open env") auto
      note q = AudioGenerator_open_quiet [OF op]
      then have a1: "\<And>b. b \<in> set a1 \<Longrightarrow> \<not> is_success b"
        using no_success_no_finished by auto
      show ?thesis
      proof (cases y)
        case (Some e)
        with t Inr True op ain assms(2) a1 show ?thesis by (auto simp: AudioGenerator_try_def)
      next
        case None
        obtain a2 z where sv: "AudioGenerator_save w env r = (a2, z)"
          by (cases "AudioGenerator_save w env r")
        from t Inr True op None sv have eq:
          "acts = HttpRequest ''POST'' (stream_url w) # a1 @ a2" "x = z"
          by (auto simp: AudioGenerator_try_def)
        with ain assms(2) a1 have "a \<in> set a2" by auto
        from AudioGenerator_save_success [OF sv this assms(2)]
        obtain a0 n where d: "download w env (expected_size r) (stream_error r) 0 0 (chunks r) =
              (a0, StreamEnd n)" and n: "n \<noteq> 0" and "z = None"
          and a2: "a2 = a0 @ [EmitProgress 100, EmitFinished (temp_file env) True []]"
          by blast
        with run eq a2 q have "progress_values (fst (AudioGenerator_run w env)) =
            progress_values a0 @ [100]"
          by (simp add: progress_values_append)
        with Inr True d n show ?thesis by auto
      qed
    qed
  qed
qed

text \<open>The progress values of any run come from the download loop, followed at most by 100.\<close>

lemma AudioGenerator_except_progress: "progress_values (AudioGenerator_except env tf x) = []"
  by (cases "(env, tf, x)" rule: AudioGenerator_except.cases) auto

lemma AudioGenerator_save_progress:
  "progress_values (fst (AudioGenerator_save w env r)) =
     progress_values (fst (download w env (expected_size r) (stream_error r) 0 0 (chunks r))) \<or>
   progress_values (fst (AudioGenerator_save w env r)) =
     progress_values (fst (download w env (expected_size r) (stream_error r) 0 0 (chunks r))) @ [100] \<or>
   progress_values (fst (AudioGenerator_save w env r)) = []"
proof -
  obtain a0 ex where wo: "AudioGenerator_with_open w env r = (a0, ex)"
    by (cases "AudioGenerator_with_open w env r")
  show ?thesis
  proof (cases ex)
    case (StreamEnd n)
    with with_open_StreamEnd [of w env r a0 n] wo
    have "a0 = fst (download w env (expected_size r) (stream_error r) 0 0 (chunks r))" by simp
    with wo StreamEnd show ?thesis
      by (auto simp: AudioGenerator_save_def progress_values_append)
  next
    case Returned
    with with_open_cases [OF wo] wo show ?thesis by (auto simp: AudioGenerator_save_def)
  next
    case (Raised e)
    with with_open_cases [OF wo] wo show ?thesis by (auto simp: AudioGenerator_save_def)
  qed
qed

lemma AudioGenerator_run_progress:
  "progress_values (fst (AudioGenerator_run w env)) = [] \<or>
   (\<exists>r. post_result env = Inr r \<and> status_code r = 200 \<and>
      (progress_values (fst (AudioGenerator_run w env)) =
         progress_values (fst (download w env (expected_size r) (stream_error r) 0 0 (chunks r))) \<or>
       progress_values (fst (AudioGenerator_run w env)) =
         progress_values (fst (download w env (expected_size r) (stream_error r) 0 0 (chunks r)))
         @ [100]))"
proof (cases "observe w (stop_before env) 0")
  case False
  then show ?thesis by (simp add: AudioGenerator_run_def)
next
  case o0: True
  obtain acts x tf where t: "AudioGenerator_try w env = (acts, x, tf)"
    by (cases "AudioGenerator_try w env") auto
  from o0 t have run: "progress_values (fst (AudioGenerator_run w env)) = progress_values acts"
    by (simp add: AudioGenerator_run_def progress_values_append AudioGenerator_except_progress)
  show ?thesis
  proof (cases "post_result env")
    case (Inl e)
    with t run show ?thesis by (auto simp: AudioGenerator_try_def)
  next
    case (Inr r)
    show ?thesis
    proof (cases "observe w (stop_before env) 1 \<and> status_code r = 200")
      case False
      with t Inr run show ?thesis by (auto simp: AudioGenerator_try_def split: if_splits)
    next
      case True
      obtain a1 y tf1 where op: "AudioGenerator_open env = (a1, y, tf1)"
        by (cases "AudioGenerator_open env") auto
      note q = AudioGenerator_open_quiet [OF op]
      show ?thesis
      proof (cases y)
        case (Some e)
        with t Inr True op q run show ?thesis by (auto simp: AudioGenerator_try_def)
      next
        case None
        obtain a2 z where sv: "AudioGenerator_save w env r = (a2, z)"
          by (cases "AudioGenerator_save w env r")
        from t Inr True op None sv have "acts = HttpRequest ''POST'' (stream_url w) # a1 @ a2"
          by (auto simp: AudioGenerator_try_def)
        with run q have "progress_values (fst (AudioGenerator_run w env)) = progress_values a2"
          by (simp add: progress_values_append)
        with AudioGenerator_save_progress [of w env r] sv Inr True show ?thesis by auto
      qed
    qed
  qed
qed

section \<open>The streaming download worker: progress\<close>

lemma download_demo_over:
  "progress_values (fst (AudioGenerator_run demo_generator
       (demo_stream 10 [replicate 20 (CHR ''a'')]))) = [200, 100]"
  by (simp add: demo_generator_def demo_stream_def AudioGenerator_init_def AudioGenerator_run_def
      AudioGenerator_try_def AudioGenerator_open_def AudioGenerator_save_def
      AudioGenerator_with_open_def expected_size_def
      observe_def chunk_progress_def percent_20_of_10)

lemma download_demo_29:
  "progress_values (fst (AudioGenerator_run demo_generator
       (demo_stream 100 [replicate 29 (CHR ''a'')]))) = [28, 100]"
  by (simp add: demo_generator_def demo_stream_def AudioGenerator_init_def AudioGenerator_run_def
      AudioGenerator_try_def AudioGenerator_open_def AudioGenerator_save_def
      AudioGenerator_with_open_def expected_size_def
      observe_def chunk_progress_def percent_29_of_100)

text \<open>
  C5, as stated, fails. With a declared length of 10 and one chunk of 20 bytes the worker
  emits 200 and then 100: a value above 100, followed by a smaller one. With a declared
  length of 100 and a chunk of 29 bytes it emits 28, one less than the floor of the exact
  quotient, because the percentage is computed in binary64.
\<close>

theorem C5_counterexample:
  "progress_values (fst (AudioGenerator_run demo_generator
       (demo_stream 10 [replicate 20 (CHR ''a'')]))) = [200, 100] \<and>
   progress_values (fst (AudioGenerator_run demo_generator
       (demo_stream 100 [replicate 29 (CHR ''a'')]))) = [28, 100] \<and>
   \<lfloor>(29 :: rat) / 100 * 100\<rfloor> = 29"
  by (simp add: download_demo_over download_demo_29)

text \<open>
  C5, amended. When the declared length is positive and the stream delivers no more bytes
  than declared, every progress value of any run (whatever the schedule of \<open>stop()\<close>,
  whatever fails) lies in 0..100, the values never decrease, and a successful run emits
  exactly the binary64 percentage \<open>int((total_size / expected_size) * 100)\<close> after each
  non-empty chunk, followed by 100.
\<close>

theorem C5_progress_within_declared_length:
  "post_result env = Inr r \<and> content_length r = Length l \<and> 0 < l \<and>
   int (sum_list (map length (chunks r))) \<le> l \<longrightarrow>
     (\<forall>p \<in> set (progress_values (fst (AudioGenerator_run w env))). 0 \<le> p \<and> p \<le> 100) \<and>
     sorted (progress_values (fst (AudioGenerator_run w env))) \<and>
     ((\<exists>a \<in> set (fst (AudioGenerator_run w env)). is_success a) \<longrightarrow>
        progress_values (fst (AudioGenerator_run w env)) =
          map (\<lambda>k. the_percent (int k) l) (running_totals 0 (chunks r)) @ [100])"
proof
  assume h: "post_result env = Inr r \<and> content_length r = Length l \<and> 0 < l \<and>
    int (sum_list (map length (chunks r))) \<le> l"
  let ?run = "progress_values (fst (AudioGenerator_run w env))"
  let ?d = "download w env (Some l) (stream_error r) 0 0 (chunks r)"
  from h have es: "expected_size r = Some l" by (simp add: expected_size_def)
  from h have b: "int 0 + int (sum_list (map length (chunks r))) \<le> l" by simp
  from h have l: "0 < l" by simp
  note dp = download_progress [OF l b, of w env "stream_error r" 0]
  have z: "0 \<le> the_percent (int 0) l" using the_percent_range [of 0 l] l by simp
  from dp z have rng: "\<forall>p \<in> set (progress_values (fst ?d)). 0 \<le> p \<and> p \<le> 100"
    by fastforce
  from dp have srt: "sorted (progress_values (fst ?d))" by simp
  from rng srt have srt100: "sorted (progress_values (fst ?d) @ [100])"
    by (simp add: sorted_append)
  have c12: "(\<forall>p \<in> set ?run. 0 \<le> p \<and> p \<le> 100) \<and> sorted ?run"
    using AudioGenerator_run_progress [of w env] h es rng srt srt100 by (elim disjE exE) auto
  have c3: "(\<exists>a \<in> set (fst (AudioGenerator_run w env)). is_success a) \<longrightarrow>
      ?run = map (\<lambda>k. the_percent (int k) l) (running_totals 0 (chunks r)) @ [100]"
  proof
    assume "\<exists>a \<in> set (fst (AudioGenerator_run w env)). is_success a"
    then obtain a where "a \<in> set (fst (AudioGenerator_run w env))" "is_success a" by blast
    from AudioGenerator_run_success [OF this] h es
    obtain a0 n where d: "?d = (a0, StreamEnd n)" and pv: "?run = progress_values a0 @ [100]"
      by auto
    from dp d have "progress_values a0 =
        map (\<lambda>k. the_percent (int k) l) (running_totals 0 (chunks r))" by simp
    with pv show "?run = map (\<lambda>k. the_percent (int k) l) (running_totals 0 (chunks r)) @ [100]"
      by simp
  qed
  from c12 c3 show "(\<forall>p \<in> set ?run. 0 \<le> p \<and> p \<le> 100) \<and> sorted ?run \<and>
     ((\<exists>a \<in> set (fst (AudioGenerator_run w env)). is_success a) \<longrightarrow>
        ?run = map (\<lambda>k. the_percent (int k) l) (running_totals 0 (chunks r)) @ [100])"
    by blast
qed

theorem C5_witness:
  "list_all (\<lambda>p. 0 \<le> p \<and> p \<le> 100)
     (progress_values (fst (AudioGenerator_run demo_generator
        (demo_stream 100 [replicate 29 (CHR ''a''), [], replicate 71 (CHR ''b'')])))) \<and>
   sorted (progress_values (fst (AudioGenerator_run demo_generator
        (demo_stream 100 [replicate 29 (CHR ''a''), [], replicate 71 (CHR ''b'')]))))"
  using C5_progress_within_declared_length
    [of "demo_stream 100 [replicate 29 (CHR ''a''), [], replicate 71 (CHR ''b'')]"
        "\<lparr>status_code = 200, body_text = '''', content = '''',
          json_body = Inl (RequestException ''Expecting value''),
          content_length = Length 100,
          chunks = [replicate 29 (CHR ''a''), [], replicate 71 (CHR ''b'')],
          stream_error = None\<rparr>" 100 demo_generator]
  by (simp add: demo_stream_def list_all_iff)

section \<open>The streaming download worker: empty streams\<close>

lemma download_all_empty:
  assumes "\<forall>c \<in> set cs. c = []" and "is_running w" and "stop_before env = None"
  shows "download w env es err i t cs =
           (case err of None \<Rightarrow> ([], StreamEnd t) | Some e \<Rightarrow> ([], Raised e))"
  using assms(1)
  by (induction cs arbitrary: i) (simp_all add: observe_def assms(2,3))

lemma audio_empty_file_text:
  "audio_empty_file =
     ''Error: Archivo de audio generado est'' @ [CHR 0xE1] @ '' vac'' @ [CHR 0xED] @ ''o.''"
  by (simp add: audio_empty_file_def a_acute_def i_acute_def)

text \<open>
  C6. When the response has status 200 and the chunks delivered hold no byte at all, no
  run of the download worker reports success. When moreover nothing interferes (no
  \<open>stop()\<close>, the stream ends without an exception, the header is usable, the file opens
  and closes), the run is the request, the file being opened, and one \<open>finished\<close> signal
  with the success flag off and the message \<open>Error: Archivo de audio generado esta vacio.\<close>
  (its two accented letters, a and i, are the code points E1 and ED); that message is not
  the one of a network error.
\<close>

theorem C6_empty_stream_is_a_failure:
  "post_result env = Inr r \<and> status_code r = 200 \<and> sum_list (map length (chunks r)) = 0 \<longrightarrow>
     \<not> (\<exists>a \<in> set (fst (AudioGenerator_run w env)). is_success a) \<and>
     (is_running w \<and> stop_before env = None \<and> stream_error r = None \<and>
      (\<forall>m. content_length r \<noteq> BadLength m) \<and>
      (temp_dir_exists env \<or> makedirs_error env = None) \<and> open_error env = None \<and>
      close_error env = None \<longrightarrow>
        fst (AudioGenerator_run w env) =
          HttpRequest ''POST'' (stream_url w) #
          (if temp_dir_exists env then [] else [MakeDirs]) @
          [OpenFile (temp_file env),
           EmitFinished (temp_file env) False
             (''Error: Archivo de audio generado est'' @ [CHR 0xE1] @ '' vac'' @ [CHR 0xED] @
              ''o.'')] \<and>
        (\<forall>m. ''Error: Archivo de audio generado est'' @ [CHR 0xE1] @ '' vac'' @ [CHR 0xED] @
              ''o.'' \<noteq> ''Error de red generando audio: '' @ m))"
proof (intro impI conjI)
  assume h: "post_result env = Inr r \<and> status_code r = 200 \<and>
    sum_list (map length (chunks r)) = 0"
  show "\<not> (\<exists>a \<in> set (fst (AudioGenerator_run w env)). is_success a)"
  proof
    assume "\<exists>a \<in> set (fst (AudioGenerator_run w env)). is_success a"
    then obtain a where "a \<in> set (fst (AudioGenerator_run w env))" "is_success a" by blast
    from AudioGenerator_run_success [OF this] h
    obtain a0 n where d: "download w env (expected_size r) (stream_error r) 0 0 (chunks r) =
        (a0, StreamEnd n)" and n: "n \<noteq> 0" by auto
    from download_total [OF d] h have "n = 0" by simp
    with n show False by simp
  qed
next
  assume h: "post_result env = Inr r \<and> status_code r = 200 \<and>
    sum_list (map length (chunks r)) = 0"
    and g: "is_running w \<and> stop_before env = None \<and> stream_error r = None \<and>
      (\<forall>m. content_length r \<noteq> BadLength m) \<and>
      (temp_dir_exists env \<or> makedirs_error env = None) \<and> open_error env = None \<and>
      close_error env = None"
  from h have e: "\<forall>c \<in> set (chunks r). c = []" by simp
  from g have d: "download w env (expected_size r) (stream_error r) 0 0 (chunks r) =
      ([], StreamEnd 0)"
    using download_all_empty [OF e, of w env "expected_size r" "stream_error r" 0 0] by simp
  from g d have wo: "AudioGenerator_with_open w env r = ([], StreamEnd 0)"
    by (simp add: with_open_closed)
  then have sv: "AudioGenerator_save w env r =
      ([EmitFinished (temp_file env) False audio_empty_file], None)"
    by (simp add: AudioGenerator_save_def)
  from g have op: "AudioGenerator_open env =
      ((if temp_dir_exists env then [] else [MakeDirs]) @ [OpenFile (temp_file env)], None,
       temp_file env)"
    by (auto simp: AudioGenerator_open_def)
  from g have o: "observe w (stop_before env) 0" "observe w (stop_before env) 1"
    by (simp_all add: observe_def)
  from h o sv op have "fst (AudioGenerator_run w env) =
      HttpRequest ''POST'' (stream_url w) #
      (if temp_dir_exists env then [] else [MakeDirs]) @
      [OpenFile (temp_file env), EmitFinished (temp_file env) False audio_empty_file]"
    by (simp add: AudioGenerator_run_def AudioGenerator_try_def)
  then show "fst (AudioGenerator_run w env) =
      HttpRequest ''POST'' (stream_url w) #
      (if temp_dir_exists env then [] else [MakeDirs]) @
      [OpenFile (temp_file env),
       EmitFinished (temp_file env) False
         (''Error: Archivo de audio generado est'' @ [CHR 0xE1] @ '' vac'' @ [CHR 0xED] @
          ''o.'')]"
    by (simp only: audio_empty_file_text)
next
  show "\<forall>m. ''Error: Archivo de audio generado est'' @ [CHR 0xE1] @ '' vac'' @ [CHR 0xED] @
              ''o.'' \<noteq> ''Error de red generando audio: '' @ m"
    by simp
qed

theorem C6_witness:
  "fst (AudioGenerator_run demo_generator (demo_stream 100 [[], []])) =
     [HttpRequest ''POST'' ''https://api.elevenlabs.io/v1/text-to-speech/21m00Tcm4TlvDq8ikWAM/stream'',
      OpenFile ''/home/user/.elevenlabs_tts/temp_audio_0a1b2c3d.mp3'',
      EmitFinished ''/home/user/.elevenlabs_tts/temp_audio_0a1b2c3d.mp3'' False
        (''Error: Archivo de audio generado est'' @ [CHR 0xE1] @ '' vac'' @ [CHR 0xED] @ ''o.'')]"
  using C6_empty_stream_is_a_failure
    [of "demo_stream 100 [[], []]"
        "\<lparr>status_code = 200, body_text = '''', content = '''',
          json_body = Inl (RequestException ''Expecting value''),
          content_length = Length 100, chunks = [[], []], stream_error = None\<rparr>"
        demo_generator]
  by (simp add: demo_stream_def demo_generator_def AudioGenerator_init_def stream_url_def)

section \<open>Cancellation before the start\<close>

lemma cancelled_texts:
  "cancelled_before_start = ''Operaci'' @ [CHR 0xF3] @ ''n cancelada antes de iniciar.''"
  "audio_cancelled_before_start =
     ''Generaci'' @ [CHR 0xF3] @ ''n de audio cancelada antes de iniciar.''"
  by (simp_all add: cancelled_before_start_def audio_cancelled_before_start_def o_acute_def)

lemma run_polling_cleared:
  "\<not> observe w (stop_before env) 0 \<Longrightarrow>
   run_polling n w env =
     ([StatusUpdated (''Iniciando monitoreo de tarea: '' @ task_id w), ReadFlag False,
       ReadFlag False], w\<lparr>is_running := False\<rparr>, None)"
  by (auto simp: run_polling_def poll_loop_stopped observe_def split: option.splits)

text \<open>
  C8, as stated, fails on the polling worker. After \<open>stop()\<close> its \<open>run\<close> emits the opening
  status update, reads the flag twice and ends: no outcome of any kind says that the task
  was cancelled.
\<close>

theorem C8_counterexample:
  "fst (VideoTaskWorker_run (stop demo_video_worker) (demo_video_env None)) =
     [StatusUpdated ''Iniciando monitoreo de tarea: task-1234567890'',
      ReadFlag False, ReadFlag False]"
  by (simp add: VideoTaskWorker_run_def run_polling_cleared observe_def stop_def
      demo_video_worker_def VideoTaskWorker_init_def)

text \<open>
  C8, amended. When the flag is already cleared at the first checkpoint of \<open>run\<close> (as it
  is after \<open>stop()\<close>), the simple request worker emits one \<open>finished\<close> signal with the
  success flag off and the message \<open>Operacion cancelada antes de iniciar.\<close>, the download
  worker one with \<open>Generacion de audio cancelada antes de iniciar.\<close> (the accented o of
  each is the code point F3), and neither does anything else: no request is sent, no directory
  or file is created, nothing is written. The polling worker sends no status query either,
  but emits no outcome: only its opening status update.
\<close>

theorem C8_cancel_before_start:
  "(\<not> observe w (stop_before env) 0 \<longrightarrow>
      fst (ApiWorker_run w env) =
        [EmitFinished PNone False (''Operaci'' @ [CHR 0xF3] @ ''n cancelada antes de iniciar.'')] \<and>
      \<not> (\<exists>a \<in> set (fst (ApiWorker_run w env)). is_http a \<or> is_write a)) \<and>
   (\<not> observe g (stop_before genv) 0 \<longrightarrow>
      fst (AudioGenerator_run g genv) =
        [EmitFinished [] False
           (''Generaci'' @ [CHR 0xF3] @ ''n de audio cancelada antes de iniciar.'')] \<and>
      \<not> (\<exists>a \<in> set (fst (AudioGenerator_run g genv)). is_http a \<or> is_write a)) \<and>
   (\<not> observe v (stop_before venv) 0 \<longrightarrow>
      fst (run_polling n v venv) =
        [StatusUpdated (''Iniciando monitoreo de tarea: '' @ task_id v), ReadFlag False,
         ReadFlag False] \<and>
      snd (snd (run_polling n v venv)) = None) \<and>
   \<not> observe (stop w) (stop_before env) 0 \<and> \<not> observe (stop g) (stop_before genv) 0 \<and>
   \<not> observe (stop v) (stop_before venv) 0"
proof (intro conjI impI)
  assume "\<not> observe w (stop_before env) 0"
  then have "fst (ApiWorker_run w env) = [EmitFinished PNone False cancelled_before_start]"
    by (simp add: ApiWorker_run_def)
  then show "fst (ApiWorker_run w env) =
      [EmitFinished PNone False (''Operaci'' @ [CHR 0xF3] @ ''n cancelada antes de iniciar.'')]"
    and "\<not> (\<exists>a \<in> set (fst (ApiWorker_run w env)). is_http a \<or> is_write a)"
    by (simp_all add: cancelled_texts)
next
  assume "\<not> observe g (stop_before genv) 0"
  then have "fst (AudioGenerator_run g genv) =
      [EmitFinished [] False audio_cancelled_before_start]"
    by (simp add: AudioGenerator_run_def)
  then show "fst (AudioGenerator_run g genv) =
      [EmitFinished [] False
         (''Generaci'' @ [CHR 0xF3] @ ''n de audio cancelada antes de iniciar.'')]"
    and "\<not> (\<exists>a \<in> set (fst (AudioGenerator_run g genv)). is_http a \<or> is_write a)"
    by (simp_all add: cancelled_texts)
next
  assume "\<not> observe v (stop_before venv) 0"
  then show "fst (run_polling n v venv) =
      [StatusUpdated (''Iniciando monitoreo de tarea: '' @ task_id v), ReadFlag False,
       ReadFlag False]"
    and "snd (snd (run_polling n v venv)) = None"
    by (simp_all add: run_polling_cleared)
next
  show "\<not> observe (stop w) (stop_before env) 0" "\<not> observe (stop g) (stop_before genv) 0"
    "\<not> observe (stop v) (stop_before venv) 0"
    by (simp_all add: observe_def stop_def)
qed

theorem C8_witness:
  "fst (ApiWorker_run (stop (ApiWorker_init ''key'' ''https://api.elevenlabs.io/v1/voices'' ''GET'' None))
          \<lparr>stop_before = None, http_result = Inl (RequestException ''unreachable'')\<rparr>) =
     [EmitFinished PNone False (''Operaci'' @ [CHR 0xF3] @ ''n cancelada antes de iniciar.'')] \<and>
   fst (AudioGenerator_run (stop demo_generator) (demo_stream 100 [replicate 29 (CHR ''a'')])) =
     [EmitFinished [] False
        (''Generaci'' @ [CHR 0xF3] @ ''n de audio cancelada antes de iniciar.'')] \<and>
   fst (run_polling 120 (stop demo_video_worker) (demo_video_env None)) =
     [StatusUpdated ''Iniciando monitoreo de tarea: task-1234567890'', ReadFlag False,
      ReadFlag False]"
proof -
  note t = C8_cancel_before_start
    [of "stop (ApiWorker_init ''key'' ''https://api.elevenlabs.io/v1/voices'' ''GET'' None)"
        "\<lparr>stop_before = None, http_result = Inl (RequestException ''unreachable'')\<rparr>"
        "stop demo_generator" "demo_stream 100 [replicate 29 (CHR ''a'')]"
        "stop demo_video_worker" "demo_video_env None" 120]
  have "task_id (stop demo_video_worker) = ''task-1234567890''"
    by (simp add: stop_def demo_video_worker_def VideoTaskWorker_init_def)
  with t show ?thesis by (simp add: observe_def stop_def)
qed

section \<open>The polling worker: time-out and cancellation\<close>

lemma run_polling_times_out:
  "is_running w \<and> stop_before env = None \<and> (\<forall>i. i < n \<longrightarrow> still_running env w i) \<longrightarrow>
     fst (run_polling n w env) =
       StatusUpdated (''Iniciando monitoreo de tarea: '' @ task_id w) #
       concat (map (iteration env w) [0..<n]) @
       [ReadFlag True, ReadFlag True, TaskFailed (timed_out (task_id w))] \<and>
     length (filter is_query (fst (run_polling n w env))) = n \<and>
     filter is_terminal (fst (run_polling n w env)) = [TaskFailed (timed_out (task_id w))] \<and>
     snd (snd (run_polling n w env)) = None \<and>
     (\<forall>sj c tid http.
        snd (snd (snd (get_task_result sj c tid http))) \<noteq> timed_out (task_id w)) \<and>
     timed_out (task_id w) \<noteq> completed_without_url"
proof
  assume h: "is_running w \<and> stop_before env = None \<and> (\<forall>i. i < n \<longrightarrow> still_running env w i)"
  then have o: "\<And>i. observe w (stop_before env) i" by (simp add: observe_def)
  have "run_polling n w env =
     (StatusUpdated (''Iniciando monitoreo de tarea: '' @ task_id w) #
      concat (map (iteration env w) [0..<n]) @
      [ReadFlag (observe w (stop_before env) n), ReadFlag (observe w (stop_before env) (Suc n))] @
      (if observe w (stop_before env) (Suc n) then [TaskFailed (timed_out (task_id w))] else []),
      w\<lparr>is_running := observe w (stop_before env) (Suc n)\<rparr>, None)"
    using h o by (intro run_polling_quiet) simp_all
  with o have r: "run_polling n w env =
     (StatusUpdated (''Iniciando monitoreo de tarea: '' @ task_id w) #
      concat (map (iteration env w) [0..<n]) @
      [ReadFlag True, ReadFlag True, TaskFailed (timed_out (task_id w))],
      w\<lparr>is_running := True\<rparr>, None)"
    by simp
  show "fst (run_polling n w env) =
       StatusUpdated (''Iniciando monitoreo de tarea: '' @ task_id w) #
       concat (map (iteration env w) [0..<n]) @
       [ReadFlag True, ReadFlag True, TaskFailed (timed_out (task_id w))] \<and>
     length (filter is_query (fst (run_polling n w env))) = n \<and>
     filter is_terminal (fst (run_polling n w env)) = [TaskFailed (timed_out (task_id w))] \<and>
     snd (snd (run_polling n w env)) = None \<and>
     (\<forall>sj c tid http.
        snd (snd (snd (get_task_result sj c tid http))) \<noteq> timed_out (task_id w)) \<and>
     timed_out (task_id w) \<noteq> completed_without_url"
    unfolding r
    using timed_out_is_no_query_message timed_out_is_not_missing_url
    by (simp add: iterations_queries iterations_no_terminal)
qed

lemma demo_still_running: "still_running (demo_video_env s) demo_video_worker i"
  by (simp add: still_running_def demo_video_env_def demo_video_worker_def
      VideoTaskWorker_init_def demo_client_def processing_response_def get_task_result_def
      task_result_of_data_def)

lemma demo_video_worker_fields:
  "is_running demo_video_worker" "task_id demo_video_worker = ''task-1234567890''"
  by (simp_all add: demo_video_worker_def VideoTaskWorker_init_def)

lemma timed_out_text:
  "timed_out tid =
     ''Tiempo de espera agotado. La tarea '' @ take 8 tid @ ''... podr'' @ [CHR 0xED] @
     ''a seguir procesando.''"
  by (simp add: timed_out_def i_acute_def)

lemma demo_times_out:
  "filter is_terminal (fst (VideoTaskWorker_run demo_video_worker (demo_video_env None))) =
     [TaskFailed (timed_out ''task-1234567890'')]"
proof -
  have h: "is_running demo_video_worker \<and> stop_before (demo_video_env None) = None \<and>
      (\<forall>i. i < max_polls \<longrightarrow> still_running (demo_video_env None) demo_video_worker i)"
    by (simp add: demo_still_running demo_video_worker_fields) (simp add: demo_video_env_def)
  from run_polling_times_out [of demo_video_worker "demo_video_env None" max_polls, THEN mp, OF h]
  have "filter is_terminal (fst (run_polling max_polls demo_video_worker
            (demo_video_env None))) = [TaskFailed (timed_out (task_id demo_video_worker))]"
    by blast
  then show ?thesis
    unfolding VideoTaskWorker_run_def by (simp add: demo_video_worker_fields)
qed

lemma demo_provider_failure:
  "filter is_terminal (fst (VideoTaskWorker_run demo_video_worker failing_video_env)) =
     [TaskFailed ''Tarea fallida: out of memory'']"
proof -
  let ?q = "get_task_result (str_json failing_video_env) (api_client demo_video_worker)
      (task_id demo_video_worker) (poll_result failing_video_env 0)"
  have q: "?q = (True, JStr ''failed'', JObj [], ''Tarea fallida: out of memory'')"
    by (simp add: failing_video_env_def demo_video_worker_def VideoTaskWorker_init_def
        demo_client_def failed_response_def get_task_result_def task_result_of_data_def)
  then have po: "poll_outcome (snd ?q) = ([TaskFailed ''Tarea fallida: out of memory''], True, None)"
    by (simp add: poll_outcome_def)
  have o: "observe demo_video_worker (stop_before failing_video_env) 0"
    by (simp add: observe_def demo_video_worker_fields failing_video_env_def)
  have "poll_loop failing_video_env max_polls demo_video_worker 0 =
      (poll_actions demo_video_worker ?q @
         [TaskFailed ''Tarea fallida: out of memory'', ReadFlag False],
       demo_video_worker\<lparr>is_running := False\<rparr>, Suc 0, None)"
    using o po by (intro poll_loop_terminal) (simp_all add: max_polls_def)
  then show ?thesis
    unfolding VideoTaskWorker_run_def
    by (simp add: run_polling_def observe_def poll_actions_no_terminal)
qed

text \<open>
  C3, as stated, fails: the code has no time-out outcome of its own. A run that exhausts
  its 120 polls ends with an emission on the \<open>task_failed\<close> signal, the very signal on
  which a failure reported by the provider arrives.
\<close>

theorem C3_counterexample:
  "filter is_terminal (fst (VideoTaskWorker_run demo_video_worker (demo_video_env None))) =
     [TaskFailed (''Tiempo de espera agotado. La tarea task-123... podr'' @ [CHR 0xED] @
                  ''a seguir procesando.'')] \<and>
   filter is_terminal (fst (VideoTaskWorker_run demo_video_worker failing_video_env)) =
     [TaskFailed ''Tarea fallida: out of memory'']"
  by (simp add: demo_times_out demo_provider_failure timed_out_text)

text \<open>
  C3, amended. With loop bound \<open>n\<close> (\<open>max_polls\<close>, 120 in \<open>run\<close>), a worker that is not
  stopped and a task that no query ever reports as completed or failed, the polling worker
  sends exactly \<open>n\<close> status queries and then emits its only terminal signal, without
  raising: \<open>task_failed\<close> with the message \<open>Tiempo de espera agotado. La tarea\<close>, the
  first eight characters of the task id, \<open>... podria seguir procesando.\<close> (its accented i
  is the code point ED). That message differs from the message of every failure that a
  status query can report and from the one for a completed task without a video address.
\<close>

theorem C3_polling_times_out_after_n_queries:
  "is_running w \<and> stop_before env = None \<and> (\<forall>i. i < n \<longrightarrow> still_running env w i) \<longrightarrow>
     fst (run_polling n w env) =
       StatusUpdated (''Iniciando monitoreo de tarea: '' @ task_id w) #
       concat (map (iteration env w) [0..<n]) @
       [ReadFlag True, ReadFlag True,
        TaskFailed (''Tiempo de espera agotado. La tarea '' @ take 8 (task_id w) @
                    ''... podr'' @ [CHR 0xED] @ ''a seguir procesando.'')] \<and>
     length (filter is_query (fst (run_polling n w env))) = n \<and>
     filter is_terminal (fst (run_polling n w env)) =
       [TaskFailed (''Tiempo de espera agotado. La tarea '' @ take 8 (task_id w) @
                    ''... podr'' @ [CHR 0xED] @ ''a seguir procesando.'')] \<and>
     snd (snd (run_polling n w env)) = None \<and>
     (\<forall>sj c tid http.
        snd (snd (snd (get_task_result sj c tid http))) \<noteq>
        ''Tiempo de espera agotado. La tarea '' @ take 8 (task_id w) @
        ''... podr'' @ [CHR 0xED] @ ''a seguir procesando.'') \<and>
     ''Tiempo de espera agotado. La tarea '' @ take 8 (task_id w) @
        ''... podr'' @ [CHR 0xED] @ ''a seguir procesando.'' \<noteq> completed_without_url"
  using run_polling_times_out [of w env n] by (simp only: timed_out_text)

theorem C3_witness:
  "length (filter is_query (fst (VideoTaskWorker_run demo_video_worker (demo_video_env None)))) =
     120 \<and>
   filter is_terminal (fst (VideoTaskWorker_run demo_video_worker (demo_video_env None))) =
     [TaskFailed (''Tiempo de espera agotado. La tarea task-123... podr'' @ [CHR 0xED] @
                  ''a seguir procesando.'')]"
proof -
  have h: "is_running demo_video_worker \<and> stop_before (demo_video_env None) = None \<and>
      (\<forall>i. i < max_polls \<longrightarrow> still_running (demo_video_env None) demo_video_worker i)"
    by (simp add: demo_still_running demo_video_worker_fields) (simp add: demo_video_env_def)
  from C3_polling_times_out_after_n_queries
         [of demo_video_worker "demo_video_env None" max_polls, THEN mp, OF h]
  have "length (filter is_query (fst (run_polling max_polls demo_video_worker
            (demo_video_env None)))) = max_polls"
    and "filter is_terminal (fst (run_polling max_polls demo_video_worker
            (demo_video_env None))) =
       [TaskFailed (''Tiempo de espera agotado. La tarea '' @
                    take 8 (task_id demo_video_worker) @
                    ''... podr'' @ [CHR 0xED] @ ''a seguir procesando.'')]"
    by blast+
  then show ?thesis
    unfolding VideoTaskWorker_run_def by (simp add: demo_video_worker_fields max_polls_def)
qed

lemma demo_iteration:
  "iteration (demo_video_env s) demo_video_worker i =
     [ReadFlag True, Sleep 5,
      Query ''https://api.novita.ai/v3/async/task-result?task_id=task-1234567890'',
      StatusUpdated ''Tarea task-123... - Estado de la tarea: processing...'']"
  by (simp add: demo_video_worker_def VideoTaskWorker_init_def demo_video_env_def
      iteration_def query_url_def NOVITA_API_BASE_URL_def polling_interval_def
      get_task_result_def task_result_of_data_def demo_client_def processing_response_def)

text \<open>
  C4, as stated, fails: there is no Cancelled outcome to move to. When \<open>stop()\<close> takes
  effect before the fourth loop test, the run is three iterations and the two reads that
  see the flag cleared; it emits neither \<open>task_completed\<close> nor \<open>task_failed\<close>, and there is
  no third signal.
\<close>

theorem C4_counterexample:
  "effects (fst (VideoTaskWorker_run demo_video_worker (demo_video_env (Some 3)))) =
     [StatusUpdated ''Iniciando monitoreo de tarea: task-1234567890'',
      Sleep 5, Query ''https://api.novita.ai/v3/async/task-result?task_id=task-1234567890'',
      StatusUpdated ''Tarea task-123... - Estado de la tarea: processing...'',
      Sleep 5, Query ''https://api.novita.ai/v3/async/task-result?task_id=task-1234567890'',
      StatusUpdated ''Tarea task-123... - Estado de la tarea: processing...'',
      Sleep 5, Query ''https://api.novita.ai/v3/async/task-result?task_id=task-1234567890'',
      StatusUpdated ''Tarea task-123... - Estado de la tarea: processing...''] \<and>
   filter is_terminal (fst (VideoTaskWorker_run demo_video_worker (demo_video_env (Some 3)))) = []"
proof -
  have o: "\<And>i. observe demo_video_worker (stop_before (demo_video_env (Some 3))) i = (i < 3)"
    by (simp add: observe_def demo_video_worker_fields demo_video_env_def)
  have "run_polling max_polls demo_video_worker (demo_video_env (Some 3)) =
     (StatusUpdated (''Iniciando monitoreo de tarea: '' @ task_id demo_video_worker) #
      concat (map (iteration (demo_video_env (Some 3)) demo_video_worker) [0..<3]) @
      [ReadFlag (observe demo_video_worker (stop_before (demo_video_env (Some 3))) 3),
       ReadFlag (observe demo_video_worker (stop_before (demo_video_env (Some 3))) (Suc 3))] @
      (if observe demo_video_worker (stop_before (demo_video_env (Some 3))) (Suc 3)
       then [TaskFailed (timed_out (task_id demo_video_worker))] else []),
      demo_video_worker
        \<lparr>is_running := observe demo_video_worker (stop_before (demo_video_env (Some 3))) (Suc 3)\<rparr>,
      None)"
    by (rule run_polling_quiet)
       (simp_all add: demo_video_worker_fields demo_still_running o max_polls_def)
  moreover have "[0..<3] = [0, Suc 0, Suc (Suc 0)]" by (simp add: upt_rec numeral_3_eq_3)
  ultimately show ?thesis
    unfolding VideoTaskWorker_run_def
    by (simp add: o demo_iteration demo_video_worker_fields effects_def)
qed

text \<open>
  C4, amended. In every run of the polling worker each sleep comes directly after a read of the
  flag that saw it set, and each query directly after a sleep: the flag is read once per
  iteration, in the loop test, before the wait and the query. When \<open>stop()\<close> takes
  effect before loop test number \<open>k\<close> (and the task was still unfinished until then),
  the run is \<open>k\<close> full iterations followed by the two reads that see the flag cleared:
  \<open>k\<close> queries, none after the detection, the flag cleared at the end, no exception,
  and no terminal signal: the run ends without emitting an outcome.
\<close>

theorem C4_cancellation_checked_once_per_iteration:
  "checked_before_wait_and_query (fst (run_polling n w env)) \<and>
   (is_running w \<and> stop_before env = Some k \<and> k \<le> n \<and>
    (\<forall>i. i < k \<longrightarrow> still_running env w i) \<longrightarrow>
      fst (run_polling n w env) =
        StatusUpdated (''Iniciando monitoreo de tarea: '' @ task_id w) #
        concat (map (iteration env w) [0..<k]) @ [ReadFlag False, ReadFlag False] \<and>
      length (filter is_query (fst (run_polling n w env))) = k \<and>
      filter is_terminal (fst (run_polling n w env)) = [] \<and>
      \<not> is_running (fst (snd (run_polling n w env))) \<and>
      snd (snd (run_polling n w env)) = None)"
proof (intro conjI impI)
  show "checked_before_wait_and_query (fst (run_polling n w env))"
    by (rule run_polling_checked)
next
  assume h: "is_running w \<and> stop_before env = Some k \<and> k \<le> n \<and>
    (\<forall>i. i < k \<longrightarrow> still_running env w i)"
  then have o: "\<And>i. observe w (stop_before env) i = (i < k)" by (simp add: observe_def)
  have "run_polling n w env =
     (StatusUpdated (''Iniciando monitoreo de tarea: '' @ task_id w) #
      concat (map (iteration env w) [0..<k]) @
      [ReadFlag (observe w (stop_before env) k), ReadFlag (observe w (stop_before env) (Suc k))] @
      (if observe w (stop_before env) (Suc k) then [TaskFailed (timed_out (task_id w))] else []),
      w\<lparr>is_running := observe w (stop_before env) (Suc k)\<rparr>, None)"
    using h o by (intro run_polling_quiet) simp_all
  with o have r: "run_polling n w env =
     (StatusUpdated (''Iniciando monitoreo de tarea: '' @ task_id w) #
      concat (map (iteration env w) [0..<k]) @ [ReadFlag False, ReadFlag False],
      w\<lparr>is_running := False\<rparr>, None)"
    by simp
  show "fst (run_polling n w env) =
        StatusUpdated (''Iniciando monitoreo de tarea: '' @ task_id w) #
        concat (map (iteration env w) [0..<k]) @ [ReadFlag False, ReadFlag False]"
    and "length (filter is_query (fst (run_polling n w env))) = k"
    and "filter is_terminal (fst (run_polling n w env)) = []"
    and "\<not> is_running (fst (snd (run_polling n w env)))"
    and "snd (snd (run_polling n w env)) = None"
    unfolding r by (simp_all add: iterations_queries iterations_no_terminal)
qed

theorem C4_witness:
  "fst (VideoTaskWorker_run demo_video_worker (demo_video_env (Some 1))) =
     [StatusUpdated ''Iniciando monitoreo de tarea: task-1234567890'',
      ReadFlag True, Sleep 5,
      Query ''https://api.novita.ai/v3/async/task-result?task_id=task-1234567890'',
      StatusUpdated ''Tarea task-123... - Estado de la tarea: processing...'',
      ReadFlag False, ReadFlag False] \<and>
   length (filter is_query
     (fst (VideoTaskWorker_run demo_video_worker (demo_video_env (Some 1))))) = 1"
proof -
  have h: "is_running demo_video_worker \<and> stop_before (demo_video_env (Some 1)) = Some 1 \<and>
      1 \<le> max_polls \<and>
      (\<forall>i. i < 1 \<longrightarrow> still_running (demo_video_env (Some 1)) demo_video_worker i)"
    by (simp add: demo_still_running demo_video_worker_fields max_polls_def)
       (simp add: demo_video_env_def)
  from C4_cancellation_checked_once_per_iteration
         [of max_polls demo_video_worker "demo_video_env (Some 1)" 1, THEN conjunct2, THEN mp, OF h]
  have "fst (run_polling max_polls demo_video_worker (demo_video_env (Some 1))) =
      StatusUpdated (''Iniciando monitoreo de tarea: '' @ task_id demo_video_worker) #
      concat (map (iteration (demo_video_env (Some 1)) demo_video_worker) [0..<1]) @
      [ReadFlag False, ReadFlag False]"
    and "length (filter is_query (fst (run_polling max_polls demo_video_worker
            (demo_video_env (Some 1))))) = 1"
    by blast+
  then show ?thesis
    unfolding VideoTaskWorker_run_def by (simp add: demo_video_worker_fields demo_iteration)
qed

section \<open>One outcome per task\<close>

text \<open>
  C1, as stated, fails on the polling worker. When \<open>stop()\<close> takes effect during the
  second iteration, the run is two status updates' worth of polling followed by the two
  reads that see the flag cleared: no \<open>task_completed\<close>, no \<open>task_failed\<close>, nothing that
  tells the window about the cancellation.
\<close>

theorem C1_counterexample:
  "fst (VideoTaskWorker_run demo_video_worker (demo_video_env (Some 2))) =
     [StatusUpdated ''Iniciando monitoreo de tarea: task-1234567890'',
      ReadFlag True, Sleep 5,
      Query ''https://api.novita.ai/v3/async/task-result?task_id=task-1234567890'',
      StatusUpdated ''Tarea task-123... - Estado de la tarea: processing...'',
      ReadFlag True, Sleep 5,
      Query ''https://api.novita.ai/v3/async/task-result?task_id=task-1234567890'',
      StatusUpdated ''Tarea task-123... - Estado de la tarea: processing...'',
      ReadFlag False, ReadFlag False] \<and>
   filter is_terminal (fst (VideoTaskWorker_run demo_video_worker (demo_video_env (Some 2)))) = []"
proof -
  have o: "\<And>i. observe demo_video_worker (stop_before (demo_video_env (Some 2))) i = (i < 2)"
    by (simp add: observe_def demo_video_worker_fields demo_video_env_def)
  have "run_polling max_polls demo_video_worker (demo_video_env (Some 2)) =
     (StatusUpdated (''Iniciando monitoreo de tarea: '' @ task_id demo_video_worker) #
      concat (map (iteration (demo_video_env (Some 2)) demo_video_worker) [0..<2]) @
      [ReadFlag (observe demo_video_worker (stop_before (demo_video_env (Some 2))) 2),
       ReadFlag (observe demo_video_worker (stop_before (demo_video_env (Some 2))) (Suc 2))] @
      (if observe demo_video_worker (stop_before (demo_video_env (Some 2))) (Suc 2)
       then [TaskFailed (timed_out (task_id demo_video_worker))] else []),
      demo_video_worker
        \<lparr>is_running := observe demo_video_worker (stop_before (demo_video_env (Some 2))) (Suc 2)\<rparr>,
      None)"
    by (rule run_polling_quiet)
       (simp_all add: demo_video_worker_fields demo_still_running o max_polls_def)
  moreover have "[0..<2] = [0, Suc 0]" by (simp add: upt_rec numeral_2_eq_2)
  ultimately show ?thesis
    unfolding VideoTaskWorker_run_def by (simp add: o demo_iteration demo_video_worker_fields)
qed

lemma close_failure_after_cancel:
  "fst (AudioGenerator_run demo_generator
      ((demo_stream 100 [replicate 29 (CHR ''a'')])
         \<lparr>stop_before := Some 2, close_error := Some ''disk full''\<rparr>)) =
     [HttpRequest ''POST'' ''https://api.elevenlabs.io/v1/text-to-speech/21m00Tcm4TlvDq8ikWAM/stream'',
      OpenFile ''/home/user/.elevenlabs_tts/temp_audio_0a1b2c3d.mp3'',
      EmitFinished ''/home/user/.elevenlabs_tts/temp_audio_0a1b2c3d.mp3'' False
        (''Generaci'' @ [CHR 0xF3] @ ''n de audio cancelada durante la descarga.''),
      EmitFinished ''/home/user/.elevenlabs_tts/temp_audio_0a1b2c3d.mp3'' False ''disk full'']"
  by (simp add: AudioGenerator_run_def AudioGenerator_try_def AudioGenerator_save_def
      AudioGenerator_with_open_def AudioGenerator_open_def
      demo_stream_def demo_generator_def AudioGenerator_init_def observe_def expected_size_def
      existing_file_def stream_url_def audio_cancelled_during_download_def o_acute_def)

text \<open>
  C1, amended. Every run of the simple request worker emits exactly one \<open>finished\<close>
  signal, as its last effect. Every run of the download worker ends with a \<open>finished\<close>
  signal, and emits exactly one whenever closing the temporary file does not raise. Every
  exception that leaves the \<open>try\<close> block of either worker is turned into a \<open>finished\<close>
  signal by an \<open>except\<close> clause. Every run of the polling worker ends without an
  exception and emits at most one terminal signal (\<open>task_completed\<close> or \<open>task_failed\<close>),
  after which it has no further effect; it emits exactly one when the flag is set at the
  start and \<open>stop()\<close> is not called.
\<close>

theorem C1_one_outcome_unless_polling_is_stopped:
  "single_outcome (fst (ApiWorker_run a env)) \<and>
   (close_error genv = None \<longrightarrow> single_outcome (fst (AudioGenerator_run g genv))) \<and>
   fst (AudioGenerator_run g genv) \<noteq> [] \<and>
   is_finished (last (fst (AudioGenerator_run g genv))) \<and>
   (\<exists>m. ApiWorker_except (Some e) = [EmitFinished PNone False m]) \<and>
   (\<exists>p m. AudioGenerator_except genv tf (Some e) = [EmitFinished p False m]) \<and>
   snd (snd (run_polling n w venv)) = None \<and>
   length (filter is_terminal (fst (run_polling n w venv))) \<le> 1 \<and>
   (filter is_terminal (fst (run_polling n w venv)) \<noteq> [] \<longrightarrow>
      is_terminal (last (effects (fst (run_polling n w venv))))) \<and>
   (is_running w \<and> stop_before venv = None \<longrightarrow>
      length (filter is_terminal (fst (run_polling n w venv))) = 1)"
  using ApiWorker_run_single_outcome [of a env] AudioGenerator_run_single_outcome [of genv g]
    AudioGenerator_run_ends_finished [of g genv]
    run_polling_terminals [of n w venv] ApiWorker_except_Some [of "Some e"]
    AudioGenerator_except_Some [of "Some e" genv tf]
  by blast

theorem C1_witness:
  "single_outcome (fst (ApiWorker_run
      (ApiWorker_init ''key'' ''https://api.elevenlabs.io/v1/voices'' ''GET'' None)
      \<lparr>stop_before = Some 1, http_result = Inl (OtherException ''boom'')\<rparr>)) \<and>
   single_outcome (fst (AudioGenerator_run demo_generator
      (demo_stream 100 [replicate 29 (CHR ''a'')]))) \<and>
   length (filter is_terminal
      (fst (VideoTaskWorker_run demo_video_worker (demo_video_env None)))) = 1"
proof -
  have h: "is_running demo_video_worker \<and> stop_before (demo_video_env None) = None"
    by (simp add: demo_video_worker_fields) (simp add: demo_video_env_def)
  have c: "close_error (demo_stream 100 [replicate 29 (CHR ''a'')]) = None"
    by (simp add: demo_stream_def)
  from C1_one_outcome_unless_polling_is_stopped
    [of "ApiWorker_init ''key'' ''https://api.elevenlabs.io/v1/voices'' ''GET'' None"
        "\<lparr>stop_before = Some 1, http_result = Inl (OtherException ''boom'')\<rparr>"
        "demo_stream 100 [replicate 29 (CHR ''a'')]" demo_generator "OtherException ''boom''"
        "[]" max_polls demo_video_worker "demo_video_env None"] h c
  show ?thesis unfolding VideoTaskWorker_run_def by blast
qed

section \<open>The flag never comes back\<close>

lemma stop_clears: "\<not> is_running (stop w)"
  by (simp add: stop_def)

lemma ApiWorker_apply_keeps_cleared:
  "\<not> is_running w \<Longrightarrow> \<not> is_running (foldl ApiWorker_apply w ops)"
proof (induction ops arbitrary: w)
  case Nil
  then show ?case by simp
next
  case (Cons x xs)
  have "\<not> is_running (ApiWorker_apply w x)"
    by (cases x) (simp_all add: stop_def ApiWorker_run_def split: prod.splits)
  then show ?case using Cons.IH by simp
qed

lemma AudioGenerator_apply_keeps_cleared:
  "\<not> is_running w \<Longrightarrow> \<not> is_running (foldl AudioGenerator_apply w ops)"
proof (induction ops arbitrary: w)
  case Nil
  then show ?case by simp
next
  case (Cons x xs)
  have "\<not> is_running (AudioGenerator_apply w x)"
    by (cases x) (simp_all add: stop_def AudioGenerator_run_def split: prod.splits)
  then show ?case using Cons.IH by simp
qed

lemma VideoTaskWorker_apply_keeps_cleared:
  "\<not> is_running w \<Longrightarrow> \<not> is_running (foldl VideoTaskWorker_apply w ops)"
proof (induction ops arbitrary: w)
  case Nil
  then show ?case by simp
next
  case (Cons x xs)
  have "\<not> is_running (VideoTaskWorker_apply w x)"
    using Cons.prems run_polling_flag [of max_polls w]
    by (cases x) (auto simp: stop_def VideoTaskWorker_run_def)
  then show ?case using Cons.IH by simp
qed

text \<open>
  C9. A freshly constructed worker of each of the three kinds has the flag set;
  \<open>stop()\<close> clears it; a run of the simple request worker or of the download worker
  ends with it cleared; and once it is cleared, no sequence of \<open>stop()\<close> calls and runs
  sets it again.
\<close>

theorem C9_flag_is_monotonic:
  "is_running (ApiWorker_init k e m d) \<and>
   is_running (AudioGenerator_init k v t md s c) \<and>
   is_running (VideoTaskWorker_init cl tid) \<and>
   \<not> is_running (stop a) \<and> \<not> is_running (stop g) \<and> \<not> is_running (stop w) \<and>
   \<not> is_running (snd (ApiWorker_run a env)) \<and>
   \<not> is_running (snd (AudioGenerator_run g genv)) \<and>
   (\<not> is_running a \<longrightarrow> \<not> is_running (foldl ApiWorker_apply a aops)) \<and>
   (\<not> is_running g \<longrightarrow> \<not> is_running (foldl AudioGenerator_apply g gops)) \<and>
   (\<not> is_running w \<longrightarrow> \<not> is_running (foldl VideoTaskWorker_apply w wops))"
  using ApiWorker_apply_keeps_cleared [of a aops] AudioGenerator_apply_keeps_cleared [of g gops]
    VideoTaskWorker_apply_keeps_cleared [of w wops]
  by (simp add: ApiWorker_init_def AudioGenerator_init_def VideoTaskWorker_init_def stop_def
      ApiWorker_run_def AudioGenerator_run_def split: prod.splits)

theorem C9_witness:
  "\<not> is_running (foldl ApiWorker_apply
        (stop (ApiWorker_init ''key'' ''https://api.elevenlabs.io/v1/voices'' ''GET'' None))
        [Run \<lparr>stop_before = None, http_result = Inl (OtherException ''boom'')\<rparr>, Stop]) \<and>
   \<not> is_running (foldl AudioGenerator_apply (stop demo_generator)
        [Run (demo_stream 100 [replicate 29 (CHR ''a'')]), Stop]) \<and>
   \<not> is_running (foldl VideoTaskWorker_apply (stop demo_video_worker)
        [Run (demo_video_env None), Stop, Run (demo_video_env (Some 3))])"
proof -
  note t = C9_flag_is_monotonic
    [of "''key''" "''https://api.elevenlabs.io/v1/voices''" "''GET''" None
        "''v''" "''t''" "''m''" 0 0 demo_client "''task''"
        "stop (ApiWorker_init ''key'' ''https://api.elevenlabs.io/v1/voices'' ''GET'' None)"
        "stop demo_generator" "stop demo_video_worker"
        "\<lparr>stop_before = None, http_result = Inl (OtherException ''boom'')\<rparr>"
        "demo_stream 100 [replicate 29 (CHR ''a'')]"
        "[Run \<lparr>stop_before = None, http_result = Inl (OtherException ''boom'')\<rparr>, Stop]"
        "[Run (demo_stream 100 [replicate 29 (CHR ''a'')]), Stop]"
        "[Run (demo_video_env None), Stop, Run (demo_video_env (Some 3))]"]
  have "\<not> is_running (stop (ApiWorker_init ''key'' ''https://api.elevenlabs.io/v1/voices'' ''GET'' None))"
    and "\<not> is_running (stop demo_generator)" and "\<not> is_running (stop demo_video_worker)"
    by (simp_all add: stop_def)
  with t show ?thesis by blast
qed

section \<open>The single worker slot\<close>

lemma start_worker_rejected:
  "worker_thread s = Some t \<Longrightarrow> isRunning (threads s ! t) \<Longrightarrow>
   start_worker s x = (False, s\<lparr>warnings := Suc (warnings s)\<rparr>)"
  by (simp add: start_worker_def)

lemma start_all_rejected:
  "worker_thread s = Some t \<Longrightarrow> isRunning (threads s ! t) \<Longrightarrow>
   start_all s xs = (replicate (length xs) False, s\<lparr>warnings := warnings s + length xs\<rparr>)"
proof (induction xs arbitrary: s)
  case Nil
  then show ?case by simp
next
  case (Cons x xs)
  from Cons.prems have r: "start_worker s x = (False, s\<lparr>warnings := Suc (warnings s)\<rparr>)"
    by (rule start_worker_rejected)
  from Cons.prems have "worker_thread (s\<lparr>warnings := Suc (warnings s)\<rparr>) = Some t"
    and "isRunning (threads (s\<lparr>warnings := Suc (warnings s)\<rparr>) ! t)" by simp_all
  from Cons.IH [OF this] r show ?case by simp
qed

text \<open>
  Requests made one after the other while the thread of the first worker runs are all
  refused: each only shows the warning, no thread is created, nothing is kept for later.
\<close>

lemma back_to_back_starts_rejected:
  assumes "fst (start_worker s x)"
  shows "fst (start_all (snd (start_worker s x)) xs) = replicate (length xs) False \<and>
     spawned (snd (start_all (snd (start_worker s x)) xs)) = spawned s @ [x] \<and>
     threads (snd (start_all (snd (start_worker s x)) xs)) = threads s @ [\<lparr>isRunning = True\<rparr>] \<and>
     worker (snd (start_all (snd (start_worker s x)) xs)) = Some x \<and>
     warnings (snd (start_all (snd (start_worker s x)) xs)) = warnings s + length xs"
proof -
  let ?s1 = "s\<lparr>worker := Some x, worker_thread := Some (length (threads s)),
                threads := threads s @ [\<lparr>isRunning = True\<rparr>], spawned := spawned s @ [x]\<rparr>"
  from assms have st: "start_worker s x = (True, ?s1)"
    by (auto simp: start_worker_def split: if_splits)
  have "start_all ?s1 xs = (replicate (length xs) False, ?s1\<lparr>warnings := warnings ?s1 + length xs\<rparr>)"
    by (rule start_all_rejected [of _ "length (threads s)"]) simp_all
  with st show ?thesis by simp
qed

text \<open>
  As long as every running thread is the one the window refers to, at most one thread
  runs. A start request and the end of a thread keep it so; a clearing call keeps it so
  when it is run while no thread is running.
\<close>

lemma only_slot_runs_iff:
  "only_slot_runs s =
     (\<forall>t < length (threads s). isRunning (threads s ! t) \<longrightarrow> worker_thread s = Some t)"
  by (auto simp: only_slot_runs_def list_all_iff)

lemma only_slot_runs_init: "only_slot_runs ElevenLabsTTS_init"
  by (simp add: only_slot_runs_iff ElevenLabsTTS_init_def)

lemma only_slot_runs_start:
  assumes "only_slot_runs s"
  shows "only_slot_runs (snd (start_worker s x))"
proof (cases "worker_thread s \<noteq> None \<and> isRunning (threads s ! the (worker_thread s))")
  case True
  then have "start_worker s x = (False, s\<lparr>warnings := Suc (warnings s)\<rparr>)"
    by (simp add: start_worker_def)
  with assms show ?thesis by (simp add: only_slot_runs_iff)
next
  case False
  then have st: "start_worker s x =
      (True, s\<lparr>worker := Some x, worker_thread := Some (length (threads s)),
                threads := threads s @ [\<lparr>isRunning = True\<rparr>], spawned := spawned s @ [x]\<rparr>)"
    unfolding start_worker_def by (simp only: if_False)
  have none: "\<not> isRunning (threads s ! t)" if "t < length (threads s)" for t
  proof
    assume r: "isRunning (threads s ! t)"
    with assms that have "worker_thread s = Some t" by (simp add: only_slot_runs_iff)
    with r False show False by simp
  qed
  show ?thesis
    unfolding only_slot_runs_iff st
  proof (intro allI impI)
    fix t
    let ?s' = "snd (True, s\<lparr>worker := Some x, worker_thread := Some (length (threads s)),
                threads := threads s @ [\<lparr>isRunning = True\<rparr>], spawned := spawned s @ [x]\<rparr>)"
    assume lt: "t < length (threads ?s')" and r: "isRunning (threads ?s' ! t)"
    from lt have le: "t < Suc (length (threads s))" by simp
    have "t = length (threads s)"
    proof (rule ccontr)
      assume "t \<noteq> length (threads s)"
      with le have l: "t < length (threads s)" by simp
      with r have "isRunning (threads s ! t)" by (simp add: nth_append)
      with none [OF l] show False by simp
    qed
    then show "worker_thread ?s' = Some t" by simp
  qed
qed

lemma only_slot_runs_finished:
  assumes "only_slot_runs s"
  shows "only_slot_runs (thread_finished s t)"
proof (cases "t < length (threads s) \<and> isRunning (threads s ! t)")
  case False
  then have "thread_finished s t = s"
    unfolding thread_finished_def by (simp only: if_False)
  with assms show ?thesis by simp
next
  case True
  then have tf: "thread_finished s t =
      s\<lparr>threads := (threads s)[t := \<lparr>isRunning = False\<rparr>], queued_clears := Suc (queued_clears s)\<rparr>"
    by (simp add: thread_finished_def)
  show ?thesis
    unfolding only_slot_runs_iff tf
  proof (intro allI impI)
    fix u
    let ?s' = "s\<lparr>threads := (threads s)[t := \<lparr>isRunning = False\<rparr>],
                  queued_clears := Suc (queued_clears s)\<rparr>"
    assume lt: "u < length (threads ?s')" and r: "isRunning (threads ?s' ! u)"
    from lt have l: "u < length (threads s)" by simp
    from r l have ne: "u \<noteq> t" by (auto simp: nth_list_update)
    with r l have "isRunning (threads s ! u)" by (simp add: nth_list_update)
    with assms l have "worker_thread s = Some u" by (simp add: only_slot_runs_iff)
    then show "worker_thread ?s' = Some u" by simp
  qed
qed

lemma only_slot_runs_clear_when_idle:
  assumes "only_slot_runs s" and "running_threads s = []"
  shows "only_slot_runs (deliver_clear s)"
proof -
  have "\<not> isRunning (threads s ! t)" if "t < length (threads s)" for t
    using assms(2) that by (auto simp: running_threads_def filter_empty_conv)
  then show ?thesis
    by (simp add: only_slot_runs_iff deliver_clear_def clear_worker_references_def)
qed

lemma only_slot_runs_at_most_one:
  assumes "only_slot_runs s"
  shows "length (running_threads s) \<le> 1"
proof (cases "worker_thread s")
  case None
  with assms have "running_threads s = []"
    by (auto simp: only_slot_runs_iff running_threads_def filter_empty_conv)
  then show ?thesis by simp
next
  case (Some u)
  have "running_threads s = filter (\<lambda>t. t = u \<and> isRunning (threads s ! t)) [0..<length (threads s)]"
    unfolding running_threads_def
    by (rule filter_cong) (use assms Some in \<open>auto simp: only_slot_runs_iff\<close>)
  also have "length \<dots> \<le> length (filter (\<lambda>t. t = u) [0..<length (threads s)])"
  proof -
    have "filter (\<lambda>t. t = u \<and> isRunning (threads s ! t)) [0..<length (threads s)] =
          filter (\<lambda>t. isRunning (threads s ! t)) (filter (\<lambda>t. t = u) [0..<length (threads s)])"
      by (simp add: conj_commute)
    then show ?thesis by (simp only: length_filter_le)
  qed
  also have "\<dots> \<le> 1"
  proof -
    have "distinct [0..<length (threads s)]" by simp
    then have "length (filter (\<lambda>t. t = u) [0..<length (threads s)]) =
        card ({t. t = u} \<inter> set [0..<length (threads s)])"
      by (rule distinct_length_filter)
    also have "\<dots> \<le> card {u}" by (rule card_mono) auto
    finally show ?thesis by simp
  qed
  finally show ?thesis .
qed


section \<open>Only status 200 is a success\<close>








end
